theory Spec2Isabelle
  imports Main "HOL-Library.Char_ord" "HOL-Library.List_Lexorder"
begin

section \<open>Errors raised by the loader and the registry\<close>

text \<open>
  Every exception the modelled code can raise is a value of \<open>error\<close>; a computation that
  may raise returns \<open>error + 'a\<close> with \<open>Inl\<close> for the exception. \<open>Unsupported\<close> is not a
  Python exception: it marks the places where the behaviour of Python or of PyYAML lies
  outside the fragment modelled here; each of them is named where it occurs.
\<close>

datatype error =
    KeyError string
  | IndexError
  | ValueError string
  | TypeError
  | AttributeError
  | StopIteration
  | IOError string
  | ComposerError string
  | ConstructorError string
  | JenkinsJobsException string
  | SubstitutionError string
  | Unsupported

section \<open>Python's \<open>str.format\<close>\<close>

text \<open>
  \<open>node_str.format()\<close> in \<open>YamlInclude._open_file\<close> and \<open>self._node.value.format(*args,
  **kwargs)\<close> in \<open>LazyLoader.format\<close> call the built-in \<open>str.format\<close>. The model follows
  CPython 3's markup iterator: literal text is copied, \<open>{{\<close> and \<open>}}\<close> are the escaped
  braces, a lone brace is a \<open>ValueError\<close>, and a replacement field \<open>{name...}\<close> is looked
  up among the positional arguments (empty or all-digit name, \<open>IndexError\<close> when out of
  range) or the keyword arguments (\<open>KeyError\<close> when missing). Errors are raised in the
  order the string is read. Argument values are strings. The argument \<open>dflt\<close> of the
  scanner is \<open>None\<close> for \<open>str.format\<close>; a formatter that fills a missing keyword
  argument with a fixed string passes that string. A field that applies an
  attribute, an index, a conversion or a format specification to an argument that was
  found is outside the fragment: the model answers \<open>Unsupported\<close> there.
\<close>

definition is_digit :: "char \<Rightarrow> bool" where
  "is_digit c = (c \<in> set ''0123456789'')"

fun digit_val :: "char \<Rightarrow> nat" where
  "digit_val c = (if c = CHR ''1'' then 1 else if c = CHR ''2'' then 2
     else if c = CHR ''3'' then 3 else if c = CHR ''4'' then 4
     else if c = CHR ''5'' then 5 else if c = CHR ''6'' then 6
     else if c = CHR ''7'' then 7 else if c = CHR ''8'' then 8
     else if c = CHR ''9'' then 9 else 0)"

fun num_val :: "nat \<Rightarrow> string \<Rightarrow> nat" where
  "num_val acc [] = acc"
| "num_val acc (c # cs) = num_val (10 * acc + digit_val c) cs"

text \<open>
  The field name runs to the first \<open>}\<close>, \<open>:\<close> or \<open>!\<close>; a \<open>{\<close> inside it is an error and a
  \<open>[\<close> skips to the matching \<open>]\<close>. The result is the name and the text from the
  terminator on; a \<open>ValueError\<close> when the string ends first.
\<close>

fun skip_bracket :: "string \<Rightarrow> string \<Rightarrow> string \<times> string" where
  "skip_bracket acc [] = (acc, [])"
| "skip_bracket acc (c # cs) =
     (if c = CHR '']'' then (acc, c # cs) else skip_bracket (acc @ [c]) cs)"

lemma skip_bracket_length: "skip_bracket acc cs = (acc', rest) \<Longrightarrow> length rest \<le> length cs"
  by (induction cs arbitrary: acc) (auto split: if_splits simp: le_SucI)

function scan_name :: "string \<Rightarrow> string \<Rightarrow> error + (string \<times> string)" where
  "scan_name acc [] = Inl (ValueError ''expected } before end of string'')"
| "scan_name acc (c # cs) =
     (if c = CHR ''{'' then Inl (ValueError ''unexpected { in field name'')
      else if c = CHR ''['' then
        (case skip_bracket (acc @ [c]) cs of (acc', rest) \<Rightarrow> scan_name acc' rest)
      else if c = CHR ''}'' \<or> c = CHR '':'' \<or> c = CHR ''!'' then Inr (acc, c # cs)
      else scan_name (acc @ [c]) cs)"
  by pat_completeness auto
termination
proof (relation "measure (\<lambda>(acc, cs). length cs)", goal_cases)
  case 1
  show ?case by simp
next
  case (2 acc c cs x y)
  from 2(3) have "length y \<le> length cs"
    by (intro skip_bracket_length [OF sym])
  then show ?case by simp
next
  case 3
  then show ?case by simp
qed

text \<open>
  The format specification runs to the \<open>}\<close> that closes the field, nested braces counted.
  The result is the text after that brace.
\<close>

fun scan_spec :: "nat \<Rightarrow> string \<Rightarrow> error + string" where
  "scan_spec n [] = Inl (ValueError ''unmatched { in format spec'')"
| "scan_spec n (c # cs) =
     (if c = CHR ''{'' then scan_spec (Suc n) cs
      else if c = CHR ''}'' then (case n of 0 \<Rightarrow> Inr cs | Suc m \<Rightarrow> scan_spec m cs)
      else scan_spec n cs)"

text \<open>
  What follows the field name: nothing (\<open>}\<close>), a conversion \<open>!c\<close> closed by \<open>}\<close> or
  followed by \<open>:spec\<close>, or \<open>:spec\<close>. The result tells whether the field is plain and
  gives the text after the field.
\<close>

fun scan_tail :: "string \<Rightarrow> error + (bool \<times> string)" where
  "scan_tail [] = Inl (ValueError ''expected } before end of string'')"
| "scan_tail (c # cs) =
     (if c = CHR ''}'' then Inr (True, cs)
      else if c = CHR ''!'' then
        (case cs of
           [] \<Rightarrow> Inl (ValueError ''end of string while looking for conversion specifier'')
         | [_] \<Rightarrow> Inl (ValueError ''unmatched { in format spec'')
         | _ # d # ds \<Rightarrow>
             if d = CHR ''}'' then Inr (False, ds)
             else if d = CHR '':'' then
               (case scan_spec 0 ds of Inl e \<Rightarrow> Inl e | Inr rest \<Rightarrow> Inr (False, rest))
             else Inl (ValueError ''expected : after conversion specifier''))
      else (case scan_spec 0 cs of Inl e \<Rightarrow> Inl e | Inr rest \<Rightarrow> Inr (False, rest)))"

lemma scan_name_length:
  "scan_name acc cs = Inr (nm, rest) \<Longrightarrow> length rest \<le> length cs"
proof (induction acc cs rule: scan_name.induct)
  case (1 acc)
  then show ?case by simp
next
  case (2 acc c cs)
  show ?case
  proof (cases "c = CHR ''[''")
    case True
    obtain acc' r where sb: "skip_bracket (acc @ [c]) cs = (acc', r)"
      by (cases "skip_bracket (acc @ [c]) cs")
    have "length r \<le> length cs"
      using skip_bracket_length [OF sb] .
    moreover have "length rest \<le> length r"
      using 2 True sb by (auto split: if_splits)
    ultimately show ?thesis by simp
  next
    case False
    with 2 show ?thesis by (auto split: if_splits)
  qed
qed

lemma scan_spec_length: "scan_spec n cs = Inr rest \<Longrightarrow> length rest < Suc (length cs)"
  by (induction n cs rule: scan_spec.induct) (auto split: if_splits nat.splits)

lemma scan_tail_length: "scan_tail cs = Inr (b, rest) \<Longrightarrow> length rest < Suc (length cs)"
  by (cases cs) (auto split: if_splits list.splits sum.splits dest!: scan_spec_length)

text \<open>
  The argument a field names: the part of the field name before the first \<open>.\<close> or \<open>[\<close>.
  An empty name takes the next positional argument (automatic numbering), digits a
  positional argument, anything else a keyword argument. Automatic and manual numbering
  do not mix: the first numeric field fixes the mode, and a field of the other mode is a
  \<open>ValueError\<close>.
\<close>

datatype an_state = ANS_INIT | ANS_AUTO | ANS_MANUAL

definition arg_name :: "string \<Rightarrow> string" where
  "arg_name nm = takeWhile (\<lambda>c. c \<noteq> CHR ''.'' \<and> c \<noteq> CHR ''['') nm"

definition get_arg ::
  "string list \<Rightarrow> (string \<times> string) list \<Rightarrow> string option \<Rightarrow> an_state \<Rightarrow> nat
     \<Rightarrow> string \<Rightarrow> error + (string \<times> an_state \<times> nat)" where
  "get_arg args kwargs dflt st cnt nm =
     (let a = arg_name nm;
          empty = (a = []);
          numeric = (empty \<or> list_all is_digit a);
          st' = (if st = ANS_INIT \<and> numeric
                 then (if empty then ANS_AUTO else ANS_MANUAL) else st)
      in if numeric \<and> st' = ANS_MANUAL \<and> empty then
           Inl (ValueError
             ''cannot switch from manual field specification to automatic field numbering'')
         else if numeric \<and> st' = ANS_AUTO \<and> \<not> empty then
           Inl (ValueError
             ''cannot switch from automatic field numbering to manual field specification'')
         else if numeric then
           (let idx = (if empty then cnt else num_val 0 a) in
            if idx < length args
            then Inr (args ! idx, st', if empty then Suc cnt else cnt)
            else Inl IndexError)
         else (case map_of kwargs a of
                 None \<Rightarrow>
                   (case dflt of None \<Rightarrow> Inl (KeyError a) | Some d \<Rightarrow> Inr (d, st', cnt))
               | Some v \<Rightarrow> Inr (v, st', cnt)))"

function fmt_scan ::
  "string list \<Rightarrow> (string \<times> string) list \<Rightarrow> string option \<Rightarrow> an_state \<Rightarrow> nat \<Rightarrow> string
     \<Rightarrow> error + string" where
  "fmt_scan args kwargs dflt st cnt [] = Inr []"
| "fmt_scan args kwargs dflt st cnt (c # cs) =
     (if c = CHR ''{'' then
        (case cs of
           [] \<Rightarrow> Inl (ValueError ''Single { encountered in format string'')
         | d # ds \<Rightarrow>
             if d = CHR ''{'' then
               (case fmt_scan args kwargs dflt st cnt ds of
                  Inl e \<Rightarrow> Inl e | Inr out \<Rightarrow> Inr (CHR ''{'' # out))
             else
               (case scan_name [] cs of
                  Inl e \<Rightarrow> Inl e
                | Inr (nm, rest) \<Rightarrow>
                    (case scan_tail rest of
                       Inl e \<Rightarrow> Inl e
                     | Inr (plain, rest') \<Rightarrow>
                         (case get_arg args kwargs dflt st cnt nm of
                            Inl e \<Rightarrow> Inl e
                          | Inr (v, st', cnt') \<Rightarrow>
                              if plain \<and> arg_name nm = nm then
                                (case fmt_scan args kwargs dflt st' cnt' rest' of
                                   Inl e \<Rightarrow> Inl e | Inr out \<Rightarrow> Inr (v @ out))
                              else Inl Unsupported))))
      else if c = CHR ''}'' then
        (case cs of
           [] \<Rightarrow> Inl (ValueError ''Single } encountered in format string'')
         | d # ds \<Rightarrow>
             if d = CHR ''}'' then
               (case fmt_scan args kwargs dflt st cnt ds of
                  Inl e \<Rightarrow> Inl e | Inr out \<Rightarrow> Inr (CHR ''}'' # out))
             else Inl (ValueError ''Single } encountered in format string''))
      else
        (case fmt_scan args kwargs dflt st cnt cs of
           Inl e \<Rightarrow> Inl e | Inr out \<Rightarrow> Inr (c # out)))"
  by pat_completeness auto
termination
proof (relation "measure (\<lambda>(args, kwargs, dflt, st, cnt, s). length s)", goal_cases)
  case 1
  show ?case by simp
next
  case 2
  then show ?case by simp
next
  case (3 args kwargs dflt st cnt c cs d ds x nm rest y plain rest')
  have "length rest \<le> length cs"
    using 3 scan_name_length [of "[]" cs nm rest] by simp
  moreover have "length rest' < Suc (length rest)"
    using 3 scan_tail_length [of rest plain rest'] by simp
  ultimately show ?case by simp
next
  case 4
  then show ?case by simp
next
  case 5
  then show ?case by simp
qed

definition py_format :: "string \<Rightarrow> string list \<Rightarrow> (string \<times> string) list \<Rightarrow> error + string" where
  "py_format s args kwargs = fmt_scan args kwargs None ANS_INIT 0 s"

section \<open>Nodes, values and the world outside\<close>

text \<open>
  A composed YAML node, as the constructor sees it: a tag and a scalar text, a list of
  nodes, or a list of key and value nodes. \<open>node_id\<close> is the \<open>id\<close> attribute PyYAML
  prints in its messages.
\<close>

datatype node =
    ScalarNode string string
  | SequenceNode string "node list"
  | MappingNode string "(node \<times> node) list"

fun node_id :: "node \<Rightarrow> string" where
  "node_id (ScalarNode _ _) = ''scalar''"
| "node_id (SequenceNode _ _) = ''sequence''"
| "node_id (MappingNode _ _) = ''mapping''"

text \<open>The three inclusion classes and their \<open>yaml_tag\<close>.\<close>

datatype cls = YamlInclude | YamlIncludeRaw | YamlIncludeRawEscape

fun yaml_tag :: "cls \<Rightarrow> string" where
  "yaml_tag YamlInclude = ''!include:''"
| "yaml_tag YamlIncludeRaw = ''!include-raw:''"
| "yaml_tag YamlIncludeRawEscape = ''!include-raw-escape:''"

text \<open>
  What a \<open>LocalLoader\<close> stores for the inclusion tags: the search path and the escape
  callback.
\<close>

record loader =
  search_path :: "string list"
  escape_callback :: "string \<Rightarrow> string"

text \<open>
  The Python values a load produces. \<open>OrderedDict\<close> is the list of its items in
  iteration order, its keys distinct. \<open>PyScalar\<close> stands for a scalar of another type
  than \<open>str\<close> (its tag and its text). \<open>LazyLoader\<close> holds the triple \<open>(cls, loader,
  node)\<close> of the source, \<open>LazyLoaderCollection\<close> its \<open>_data\<close>.
\<close>

datatype pyvalue =
    PyNone
  | Str string
  | PyScalar string string
  | PyList "pyvalue list"
  | OrderedDict "(pyvalue \<times> pyvalue) list"
  | LazyLoader cls loader node
  | LazyLoaderCollection "pyvalue list"

fun is_LazyLoader :: "pyvalue \<Rightarrow> bool" where
  "is_LazyLoader (LazyLoader _ _ _) = True"
| "is_LazyLoader _ = False"

fun is_Str :: "pyvalue \<Rightarrow> bool" where
  "is_Str (Str _) = True"
| "is_Str _ = False"

fun str_of :: "pyvalue \<Rightarrow> string" where
  "str_of (Str s) = s"
| "str_of _ = []"

text \<open>
  The event tree of one parsed document, before composition: every node may carry an
  anchor, and \<open>YAlias\<close> refers to one.
\<close>

datatype ynode =
    YScalar "string option" string string
  | YSeq "string option" string "ynode list"
  | YMap "string option" string "(ynode \<times> ynode) list"
  | YAlias string

text \<open>
  The functions of \<open>os.path\<close>, the file system and PyYAML's scanner and parser are
  parameters of the model. \<open>read_file\<close> is \<open>io.open(filename, 'r',
  encoding='utf-8').read()\<close>, \<open>None\<close> when it raises; \<open>yaml_parse\<close> turns a text into
  the event tree of its single document (\<open>None\<close> for an empty stream); \<open>yaml_emit\<close> is
  the serializer and emitter, from the node a dumper represents to the text.
\<close>

record world =
  path_join :: "string \<Rightarrow> string \<Rightarrow> string"
  expanduser :: "string \<Rightarrow> string"
  isfile :: "string \<Rightarrow> bool"
  normpath :: "string \<Rightarrow> string"
  dirname :: "string \<Rightarrow> string"
  read_file :: "string \<Rightarrow> string option"
  yaml_parse :: "string \<Rightarrow> error + ynode option"
  yaml_emit :: "node \<Rightarrow> string"

definition curdir :: string where
  "curdir = ''.''"

section \<open>The loader's own functions\<close>

text \<open>
  \<open>LocalLoader.__init__\<close>: the search path is the \<open>search_path\<close> keyword argument
  (each entry normalised, in the caller's order), then the directory of the stream when
  the stream has a name, then the current directory; the escape callback is the keyword
  argument or \<open>_escape\<close>.
\<close>

fun LocalLoader_escape :: "string \<Rightarrow> string" where
  "LocalLoader_escape [] = []"
| "LocalLoader_escape (c # cs) =
     (if c = CHR ''{'' \<or> c = CHR ''}''
      then c # c # LocalLoader_escape cs
      else c # LocalLoader_escape cs)"

definition LocalLoader_init ::
  "world \<Rightarrow> string list option \<Rightarrow> (string \<Rightarrow> string) option \<Rightarrow> string option \<Rightarrow> loader" where
  "LocalLoader_init w kw_search_path kw_escape_callback stream_name =
     \<lparr> search_path =
         (case kw_search_path of None \<Rightarrow> [] | Some ps \<Rightarrow> map (normpath w) ps)
         @ (case stream_name of
              None \<Rightarrow> []
            | Some name \<Rightarrow> [normpath w (dirname w name)])
         @ [normpath w curdir],
       escape_callback =
         (case kw_escape_callback of None \<Rightarrow> LocalLoader_escape | Some f \<Rightarrow> f) \<rparr>"

text \<open>\<open>YamlInclude._find_file\<close>.\<close>

fun find_file :: "world \<Rightarrow> string \<Rightarrow> string list \<Rightarrow> string" where
  "find_file w filename [] = filename"
| "find_file w filename (dir # rest) =
     (let candidate = expanduser w (path_join w dir filename)
      in if isfile w candidate then candidate else find_file w filename rest)"

text \<open>
  \<open>loader.construct_yaml_str(node)\<close> is the text of a scalar node and a
  \<open>ConstructorError\<close> on any other node.
\<close>

fun construct_yaml_str :: "node \<Rightarrow> error + string" where
  "construct_yaml_str (ScalarNode _ v) = Inr v"
| "construct_yaml_str n =
     Inl (ConstructorError (''expected a scalar node, but found '' @ node_id n))"

text \<open>
  \<open>YamlInclude._open_file\<close>, with \<open>_lazy_load\<close> inlined: only a \<open>KeyError\<close> of the
  zero-argument formatting is caught; the file that is opened is the unformatted
  \<open>node_str\<close>.
\<close>

definition open_file :: "world \<Rightarrow> cls \<Rightarrow> loader \<Rightarrow> node \<Rightarrow> error + pyvalue" where
  "open_file w c l nd =
     (case construct_yaml_str nd of
        Inl e \<Rightarrow> Inl e
      | Inr node_str \<Rightarrow>
          (case py_format node_str [] [] of
             Inl e \<Rightarrow> (case e of KeyError _ \<Rightarrow> Inr (LazyLoader c l nd) | _ \<Rightarrow> Inl e)
           | Inr _ \<Rightarrow>
               (let filename = find_file w node_str (search_path l)
                in case read_file w filename of
                     None \<Rightarrow> Inl (IOError filename)
                   | Some contents \<Rightarrow> Inr (Str contents))))"

section \<open>The anchor table and composition\<close>

text \<open>
  \<open>LocalAnchorLoader.anchors\<close> is a class attribute: every loader instance takes the
  dictionary of the class in \<open>__init__\<close>, so all loaders of a session write to one
  table. The model threads that table through every function that composes a document.
  An entry is \<open>Composing\<close> from the moment PyYAML registers the anchor of a collection
  until the collection is complete, and \<open>Composed\<close> with the node afterwards.
\<close>

datatype anchor_entry = Composing | Composed node

type_synonym anchors = "string \<Rightarrow> anchor_entry option"

text \<open>\<open>LocalAnchorLoader.reset_anchors\<close>: the class attribute becomes a new, empty table.\<close>

definition reset_anchors :: "anchors \<Rightarrow> anchors" where
  "reset_anchors a = Map.empty"

fun duplicate_anchor :: "anchors \<Rightarrow> string option \<Rightarrow> bool" where
  "duplicate_anchor a None = False"
| "duplicate_anchor a (Some n) = (a n \<noteq> None)"

fun register :: "anchors \<Rightarrow> string option \<Rightarrow> anchor_entry \<Rightarrow> anchors" where
  "register a None e = a"
| "register a (Some n) e = a(n \<mapsto> e)"

text \<open>
  PyYAML's \<open>Composer.compose_node\<close>: an alias is looked up in the table and is an error
  when undefined; an anchor already in the table is an error; a scalar is registered
  with its node, a collection before its children are composed. An alias to a collection
  that is still being composed makes a cyclic node in Python, which the model does not
  represent (\<open>Unsupported\<close>).
\<close>

function compose_node :: "anchors \<Rightarrow> ynode \<Rightarrow> error + (node \<times> anchors)"
  and compose_seq :: "anchors \<Rightarrow> ynode list \<Rightarrow> error + (node list \<times> anchors)"
  and compose_map ::
    "anchors \<Rightarrow> (ynode \<times> ynode) list \<Rightarrow> error + ((node \<times> node) list \<times> anchors)" where
  "compose_node a (YAlias n) =
     (case a n of
        None \<Rightarrow> Inl (ComposerError (''found undefined alias '' @ n))
      | Some Composing \<Rightarrow> Inl Unsupported
      | Some (Composed nd) \<Rightarrow> Inr (nd, a))"
| "compose_node a (YScalar anc t v) =
     (if duplicate_anchor a anc then Inl (ComposerError (''found duplicate anchor '' @ the anc))
      else Inr (ScalarNode t v, register a anc (Composed (ScalarNode t v))))"
| "compose_node a (YSeq anc t items) =
     (if duplicate_anchor a anc then Inl (ComposerError (''found duplicate anchor '' @ the anc))
      else (case compose_seq (register a anc Composing) items of
              Inl e \<Rightarrow> Inl e
            | Inr (ns, b) \<Rightarrow>
                Inr (SequenceNode t ns, register b anc (Composed (SequenceNode t ns)))))"
| "compose_node a (YMap anc t items) =
     (if duplicate_anchor a anc then Inl (ComposerError (''found duplicate anchor '' @ the anc))
      else (case compose_map (register a anc Composing) items of
              Inl e \<Rightarrow> Inl e
            | Inr (kvs, b) \<Rightarrow>
                Inr (MappingNode t kvs, register b anc (Composed (MappingNode t kvs)))))"
| "compose_seq a [] = Inr ([], a)"
| "compose_seq a (y # ys) =
     (case compose_node a y of
        Inl e \<Rightarrow> Inl e
      | Inr (n, b) \<Rightarrow>
          (case compose_seq b ys of
             Inl e \<Rightarrow> Inl e
           | Inr (ns, c) \<Rightarrow> Inr (n # ns, c)))"
| "compose_map a [] = Inr ([], a)"
| "compose_map a ((k, v) # rest) =
     (case compose_node a k of
        Inl e \<Rightarrow> Inl e
      | Inr (kn, b) \<Rightarrow>
          (case compose_node b v of
             Inl e \<Rightarrow> Inl e
           | Inr (vn, c) \<Rightarrow>
               (case compose_map c rest of
                  Inl e \<Rightarrow> Inl e
                | Inr (kvs, d) \<Rightarrow> Inr ((kn, vn) # kvs, d))))"
  by pat_completeness auto
termination
  by (relation "measure (case_sum (\<lambda>(a, y). size y)
         (case_sum (\<lambda>(a, ys). size_list size ys)
                   (\<lambda>(a, items). size_list (size_prod size size) items)))")
     auto

text \<open>
  \<open>LocalAnchorLoader.compose_document\<close>: the root node is composed and the table is
  left as it is (PyYAML's own \<open>compose_document\<close> ends with \<open>self.anchors = {}\<close>).
\<close>

definition compose_document :: "anchors \<Rightarrow> ynode \<Rightarrow> error + (node \<times> anchors)" where
  "compose_document a y = compose_node a y"

section \<open>Computations on the session\<close>

text \<open>
  A computation of the loader reads and writes the anchor table, may raise, and (where
  it parses included files, which may include further files without end) may not
  return: \<open>None\<close> is the answer of a run whose fuel is used up, \<open>Some (Inl e)\<close> a raised
  exception, \<open>Some (Inr (x, a))\<close> the result with the table afterwards.
\<close>

type_synonym 'a run = "anchors \<Rightarrow> (error + ('a \<times> anchors)) option"

definition returnM :: "'a \<Rightarrow> 'a run" where
  "returnM x a = Some (Inr (x, a))"

definition raiseM :: "error \<Rightarrow> 'a run" where
  "raiseM e a = Some (Inl e)"

definition bindM :: "'a run \<Rightarrow> ('a \<Rightarrow> 'b run) \<Rightarrow> 'b run" where
  "bindM m f a =
     (case m a of
        None \<Rightarrow> None
      | Some (Inl e) \<Rightarrow> Some (Inl e)
      | Some (Inr (x, b)) \<Rightarrow> f x b)"

definition liftM :: "error + 'a \<Rightarrow> 'a run" where
  "liftM r = (case r of Inl e \<Rightarrow> raiseM e | Inr x \<Rightarrow> returnM x)"

fun mapM :: "('a \<Rightarrow> 'b run) \<Rightarrow> 'a list \<Rightarrow> 'b list run" where
  "mapM f [] = returnM []"
| "mapM f (x # xs) = bindM (f x) (\<lambda>y. bindM (mapM f xs) (\<lambda>ys. returnM (y # ys)))"

section \<open>The inclusion tags\<close>

text \<open>\<open>sep.join(items)\<close>: a \<open>TypeError\<close> unless every item is a string.\<close>

fun join_strs :: "string \<Rightarrow> string list \<Rightarrow> string" where
  "join_strs sep [] = []"
| "join_strs sep [x] = x"
| "join_strs sep (x # y # r) = x @ sep @ join_strs sep (y # r)"

definition py_join :: "string \<Rightarrow> pyvalue list \<Rightarrow> error + pyvalue" where
  "py_join sep items =
     (if list_all is_Str items then Inr (Str (join_strs sep (map str_of items)))
      else Inl TypeError)"

text \<open>
  \<open>YamlInclude.from_yaml\<close>, which \<open>YamlIncludeRaw\<close> inherits. The class enters through
  its \<open>_from_file\<close>, the argument \<open>from_file\<close>.
\<close>

definition from_yaml_body :: "(node \<Rightarrow> pyvalue run) \<Rightarrow> node \<Rightarrow> pyvalue run" where
  "from_yaml_body from_file nd =
     (case nd of
        ScalarNode _ _ \<Rightarrow> from_file nd
      | SequenceNode _ items \<Rightarrow>
          bindM (mapM from_file items) (\<lambda>contents.
            if list_ex is_LazyLoader contents
            then returnM (LazyLoaderCollection contents)
            else liftM (py_join [CHR 0x0A] contents))
      | MappingNode _ _ \<Rightarrow>
          raiseM (ConstructorError
            (''expected either a sequence or scalar node, but found '' @ node_id nd)))"

text \<open>\<open>YamlIncludeRaw._from_file\<close> is \<open>_open_file\<close>.\<close>

definition YamlIncludeRaw_from_file :: "world \<Rightarrow> loader \<Rightarrow> node \<Rightarrow> pyvalue run" where
  "YamlIncludeRaw_from_file w l nd = liftM (open_file w YamlIncludeRaw l nd)"

definition YamlIncludeRaw_from_yaml :: "world \<Rightarrow> loader \<Rightarrow> node \<Rightarrow> pyvalue run" where
  "YamlIncludeRaw_from_yaml w l nd = from_yaml_body (YamlIncludeRaw_from_file w l) nd"

text \<open>
  \<open>YamlIncludeRawEscape.from_yaml\<close> calls \<open>YamlIncludeRaw.from_yaml\<close>, so a deferred
  path is a \<open>LazyLoader\<close> of class \<open>YamlIncludeRaw\<close>. The escape callback takes a string:
  applied to anything else (a \<open>LazyLoaderCollection\<close> is not an instance of
  \<open>LazyLoader\<close>) it raises \<open>TypeError\<close>, as \<open>re.sub\<close> does in \<open>_escape\<close>.
\<close>

definition call_escape :: "loader \<Rightarrow> pyvalue \<Rightarrow> error + pyvalue" where
  "call_escape l data =
     (case data of Str s \<Rightarrow> Inr (Str (escape_callback l s)) | _ \<Rightarrow> Inl TypeError)"

definition YamlIncludeRawEscape_from_yaml :: "world \<Rightarrow> loader \<Rightarrow> node \<Rightarrow> pyvalue run" where
  "YamlIncludeRawEscape_from_yaml w l nd =
     bindM (YamlIncludeRaw_from_yaml w l nd) (\<lambda>data.
       if is_LazyLoader data then returnM data
       else liftM (call_escape l data))"

section \<open>Construction\<close>

definition map_tag :: string where
  "map_tag = ''tag:yaml.org,2002:map''"

definition seq_tag :: string where
  "seq_tag = ''tag:yaml.org,2002:seq''"

definition str_tag :: string where
  "str_tag = ''tag:yaml.org,2002:str''"

definition merge_tag :: string where
  "merge_tag = ''tag:yaml.org,2002:merge''"

definition value_tag :: string where
  "value_tag = ''tag:yaml.org,2002:value''"

fun node_tag :: "node \<Rightarrow> string" where
  "node_tag (ScalarNode t _) = t"
| "node_tag (SequenceNode t _) = t"
| "node_tag (MappingNode t _) = t"

fun retag :: "node \<Rightarrow> node" where
  "retag (ScalarNode t v) = ScalarNode (if t = value_tag then str_tag else t) v"
| "retag (SequenceNode t ns) = SequenceNode (if t = value_tag then str_tag else t) ns"
| "retag (MappingNode t kvs) = MappingNode (if t = value_tag then str_tag else t) kvs"

text \<open>
  PyYAML's \<open>flatten_mapping\<close>, which \<open>construct_yaml_map\<close> calls: the entries under a
  merge key \<open><<\<close> are moved to the front of the mapping (a list of mappings in reverse
  order), the other entries keep their order.
\<close>

function flatten_mapping :: "(node \<times> node) list \<Rightarrow> error + (node \<times> node) list"
  and flatten_loop ::
    "(node \<times> node) list \<Rightarrow> error + ((node \<times> node) list \<times> (node \<times> node) list)"
  and flatten_subs :: "node list \<Rightarrow> error + (node \<times> node) list list" where
  "flatten_mapping kvs =
     (case flatten_loop kvs of
        Inl e \<Rightarrow> Inl e
      | Inr (merge, kept) \<Rightarrow> Inr (merge @ kept))"
| "flatten_loop [] = Inr ([], [])"
| "flatten_loop ((k, v) # rest) =
     (if node_tag k = merge_tag then
        (case v of
           MappingNode _ sub \<Rightarrow>
             (case flatten_mapping sub of
                Inl e \<Rightarrow> Inl e
              | Inr m \<Rightarrow>
                  (case flatten_loop rest of
                     Inl e \<Rightarrow> Inl e
                   | Inr (merge, kept) \<Rightarrow> Inr (m @ merge, kept)))
         | SequenceNode _ subs \<Rightarrow>
             (case flatten_subs subs of
                Inl e \<Rightarrow> Inl e
              | Inr ms \<Rightarrow>
                  (case flatten_loop rest of
                     Inl e \<Rightarrow> Inl e
                   | Inr (merge, kept) \<Rightarrow> Inr (concat (rev ms) @ merge, kept)))
         | ScalarNode _ _ \<Rightarrow>
             Inl (ConstructorError
               ''expected a mapping or list of mappings for merging, but found scalar''))
      else
        (case flatten_loop rest of
           Inl e \<Rightarrow> Inl e
         | Inr (merge, kept) \<Rightarrow> Inr (merge, (retag k, v) # kept)))"
| "flatten_subs [] = Inr []"
| "flatten_subs (n # ns) =
     (case n of
        MappingNode _ sub \<Rightarrow>
          (case flatten_mapping sub of
             Inl e \<Rightarrow> Inl e
           | Inr m \<Rightarrow>
               (case flatten_subs ns of
                  Inl e \<Rightarrow> Inl e
                | Inr ms \<Rightarrow> Inr (m # ms)))
      | _ \<Rightarrow> Inl (ConstructorError (''expected a mapping for merging, but found '' @ node_id n)))"
  by pat_completeness auto
termination
  by (relation "measure (case_sum (\<lambda>kvs. 2 * size_list (size_prod size size) kvs + 1)
         (case_sum (\<lambda>kvs. 2 * size_list (size_prod size size) kvs)
                   (\<lambda>ns. 2 * size_list size ns)))")
     auto

text \<open>
  \<open>hash(key)\<close> raises \<open>TypeError\<close> on a list and on a dictionary. \<open>od_set\<close> is
  \<open>mapping[key] = value\<close> on an \<open>OrderedDict\<close>: a new key goes to the end, an old key
  keeps its place. \<open>od_update\<close> is \<open>data.update(mapping)\<close>.
\<close>

fun hashable :: "pyvalue \<Rightarrow> bool" where
  "hashable (PyList _) = False"
| "hashable (OrderedDict _) = False"
| "hashable _ = True"

fun od_set ::
  "pyvalue \<Rightarrow> pyvalue \<Rightarrow> (pyvalue \<times> pyvalue) list \<Rightarrow> (pyvalue \<times> pyvalue) list" where
  "od_set k v [] = [(k, v)]"
| "od_set k v ((k', v') # rest) =
     (if k' = k then (k', v) # rest else (k', v') # od_set k v rest)"

fun od_update ::
  "(pyvalue \<times> pyvalue) list \<Rightarrow> (pyvalue \<times> pyvalue) list \<Rightarrow> (pyvalue \<times> pyvalue) list" where
  "od_update d [] = d"
| "od_update d ((k, v) # rest) = od_update (od_set k v d) rest"

text \<open>
  \<open>OrderedConstructor.construct_yaml_map\<close>. The argument \<open>construct\<close> is
  \<open>self.construct_object\<close>. The call \<open>self.construct_mapping(node)\<close> builds the same
  keys and values into a plain dictionary that is dropped; PyYAML keeps what it
  constructed for a node, so the loop of the source finds every key and value built
  already and the model builds each of them once, in the order of \<open>node.value\<close>.
\<close>

fun construct_items ::
  "(node \<Rightarrow> pyvalue run) \<Rightarrow> (pyvalue \<times> pyvalue) list \<Rightarrow> (node \<times> node) list
     \<Rightarrow> (pyvalue \<times> pyvalue) list run" where
  "construct_items construct mapping [] = returnM mapping"
| "construct_items construct mapping ((key_node, value_node) # rest) =
     bindM (construct key_node) (\<lambda>key.
       if \<not> hashable key
       then raiseM (ConstructorError ''found unacceptable key'')
       else bindM (construct value_node) (\<lambda>val.
         construct_items construct (od_set key val mapping) rest))"

definition construct_yaml_map :: "(node \<Rightarrow> pyvalue run) \<Rightarrow> node \<Rightarrow> pyvalue run" where
  "construct_yaml_map construct nd =
     (case nd of
        MappingNode _ kvs \<Rightarrow>
          (case flatten_mapping kvs of
             Inl e \<Rightarrow> raiseM e
           | Inr flat \<Rightarrow>
               bindM (construct_items construct [] flat) (\<lambda>mapping.
                 returnM (OrderedDict (od_update [] mapping))))
      | _ \<Rightarrow>
          raiseM (ConstructorError (''expected a mapping node, but found '' @ node_id nd)))"

text \<open>
  The constructor of a \<open>LocalLoader\<close>, by the tag of the node: the inclusion tags go to
  \<open>from_yaml\<close> of their class (the deprecated spellings without the colon log a warning
  and call \<open>from_yaml\<close> of the class that replaces them), the mapping tag to
  \<open>construct_yaml_map\<close>. Of PyYAML's other constructors the model has the scalar (a
  string, or the tag and the text of another type) and the list; a mapping under
  another tag is outside the fragment. A node is built where it occurs, children first,
  left to right. PyYAML builds the same values; it fills a mapping or a list after the
  enclosing one exists and builds a node that several aliases reach once, so where
  inclusions are nested in collections it can read the included files in another order.

  \<open>YamlInclude._from_file\<close> parses an included text with \<open>yaml.load\<close> and a new
  \<open>LocalLoader\<close> that gets the search path of the including loader and no escape
  callback; the text has no name. \<open>yaml.load\<close> creates the loader, composes the single
  document of the stream on the table of the class and constructs it.
\<close>

fun construct_object :: "world \<Rightarrow> nat \<Rightarrow> loader \<Rightarrow> node \<Rightarrow> pyvalue run"
  and YamlInclude_from_file :: "world \<Rightarrow> nat \<Rightarrow> loader \<Rightarrow> node \<Rightarrow> pyvalue run"
  and yaml_load ::
    "world \<Rightarrow> nat \<Rightarrow> string option \<Rightarrow> string \<Rightarrow> string list option
       \<Rightarrow> (string \<Rightarrow> string) option \<Rightarrow> pyvalue run" where
  "construct_object w 0 l nd a = None"
| "construct_object w (Suc n) l nd a =
     (if node_tag nd = ''!include:'' \<or> node_tag nd = ''!include'' then
        from_yaml_body (\<lambda>x b. YamlInclude_from_file w n l x b) nd a
      else if node_tag nd = ''!include-raw:'' \<or> node_tag nd = ''!include-raw'' then
        YamlIncludeRaw_from_yaml w l nd a
      else if node_tag nd = ''!include-raw-escape:'' \<or> node_tag nd = ''!include-raw-escape'' then
        YamlIncludeRawEscape_from_yaml w l nd a
      else if node_tag nd = map_tag then
        construct_yaml_map (\<lambda>x b. construct_object w n l x b) nd a
      else
        (case nd of
           ScalarNode t v \<Rightarrow> returnM (if t = str_tag then Str v else PyScalar t v) a
         | SequenceNode _ items \<Rightarrow>
             bindM (mapM (\<lambda>x b. construct_object w n l x b) items)
               (\<lambda>vs. returnM (PyList vs)) a
         | MappingNode _ _ \<Rightarrow> raiseM Unsupported a))"
| "YamlInclude_from_file w n l nd a =
     bindM (liftM (open_file w YamlInclude l nd)) (\<lambda>contents.
       if is_LazyLoader contents then returnM contents
       else yaml_load w n None (str_of contents) (Some (search_path l)) None) a"
| "yaml_load w n stream_name text kw_search_path kw_escape_callback a =
     (case yaml_parse w text of
        Inl e \<Rightarrow> Some (Inl e)
      | Inr None \<Rightarrow> returnM PyNone a
      | Inr (Some y) \<Rightarrow>
          (case compose_document a y of
             Inl e \<Rightarrow> Some (Inl e)
           | Inr (nd, b) \<Rightarrow>
               construct_object w n
                 (LocalLoader_init w kw_search_path kw_escape_callback stream_name) nd b))"

text \<open>
  \<open>load\<close>: the table of the class is reset, then \<open>yaml.load\<close> runs with a
  \<open>LocalLoader\<close> that receives the keyword arguments.
\<close>

definition load ::
  "world \<Rightarrow> nat \<Rightarrow> string option \<Rightarrow> string \<Rightarrow> string list option
     \<Rightarrow> (string \<Rightarrow> string) option \<Rightarrow> pyvalue run" where
  "load w n stream_name text kw_search_path kw_escape_callback a =
     yaml_load w n stream_name text kw_search_path kw_escape_callback (reset_anchors a)"

definition YamlInclude_from_yaml :: "world \<Rightarrow> nat \<Rightarrow> loader \<Rightarrow> node \<Rightarrow> pyvalue run" where
  "YamlInclude_from_yaml w n l nd = from_yaml_body (YamlInclude_from_file w n l) nd"

text \<open>\<open>cls.from_yaml(loader, node)\<close> for a class held in a variable.\<close>

fun from_yaml :: "world \<Rightarrow> nat \<Rightarrow> cls \<Rightarrow> loader \<Rightarrow> node \<Rightarrow> pyvalue run" where
  "from_yaml w n YamlInclude l nd = YamlInclude_from_yaml w n l nd"
| "from_yaml w n YamlIncludeRaw l nd = YamlIncludeRaw_from_yaml w l nd"
| "from_yaml w n YamlIncludeRawEscape l nd = YamlIncludeRawEscape_from_yaml w l nd"

section \<open>A small world for concrete runs\<close>

text \<open>
  \<open>posixpath.join\<close> for two components, and a file system with the directories \<open>A\<close>,
  \<open>B\<close> and \<open>1.0\<close>. The paths in it are normal already and have no \<open>~\<close>, so
  \<open>normpath\<close> and \<open>expanduser\<close> leave them as they are.
\<close>

definition posix_join :: "string \<Rightarrow> string \<Rightarrow> string" where
  "posix_join a p =
     (if p \<noteq> [] \<and> hd p = CHR ''/'' then p
      else if a = [] \<or> last a = CHR ''/'' then a @ p
      else a @ ''/'' @ p)"

definition demo_files :: "(string \<times> string) list" where
  "demo_files =
     [(''A/x.sh'', ''echo A''),
      (''B/x.sh'', ''echo B''),
      (''B/y.sh'', ''echo ${Y}''),
      (''B/ref.yaml'', ''*A''),
      (''1.0/file.txt'', ''v{1}''),
      (''2.0/file.txt'', ''v{2}'')]"

text \<open>
  The documents the parser of this world knows: \<open>*A\<close>, an alias and nothing else, and
  a mapping that defines the anchor \<open>A\<close> on a list and includes the file \<open>ref.yaml\<close>.
\<close>

definition demo_main :: string where
  "demo_main = ''{k: &A [x, y], inc: !include: ref.yaml}''"

definition demo_parse :: "string \<Rightarrow> error + ynode option" where
  "demo_parse text =
     (if text = ''*A'' then Inr (Some (YAlias ''A''))
      else if text = demo_main then
        Inr (Some (YMap None ''tag:yaml.org,2002:map''
          [(YScalar None ''tag:yaml.org,2002:str'' ''k'',
            YSeq (Some ''A'') ''tag:yaml.org,2002:seq''
              [YScalar None ''tag:yaml.org,2002:str'' ''x'',
               YScalar None ''tag:yaml.org,2002:str'' ''y'']),
           (YScalar None ''tag:yaml.org,2002:str'' ''inc'',
            YScalar None ''!include:'' ''ref.yaml'')]))
      else if text = ''{a: 2, b: 1}'' then
        Inr (Some (YMap None ''tag:yaml.org,2002:map''
          [(YScalar None ''tag:yaml.org,2002:str'' ''a'',
            YScalar None ''tag:yaml.org,2002:int'' ''2''),
           (YScalar None ''tag:yaml.org,2002:str'' ''b'',
            YScalar None ''tag:yaml.org,2002:int'' ''1'')]))
      else Inl (ComposerError ''not a document of this world''))"

text \<open>
  The emitter of this world writes the mapping with the keys \<open>a\<close> and \<open>b\<close> in flow
  style, and the parser reads that text back.
\<close>

definition demo_sorted_node :: node where
  "demo_sorted_node = MappingNode ''tag:yaml.org,2002:map''
     [(ScalarNode ''tag:yaml.org,2002:str'' ''a'', ScalarNode ''tag:yaml.org,2002:int'' ''2''),
      (ScalarNode ''tag:yaml.org,2002:str'' ''b'', ScalarNode ''tag:yaml.org,2002:int'' ''1'')]"

definition demo_emit :: "node \<Rightarrow> string" where
  "demo_emit nd = (if nd = demo_sorted_node then ''{a: 2, b: 1}'' else [])"

definition demo_world :: world where
  "demo_world =
     \<lparr> path_join = posix_join,
       expanduser = (\<lambda>p. p),
       isfile = (\<lambda>p. map_of demo_files p \<noteq> None),
       normpath = (\<lambda>p. p),
       dirname = (\<lambda>p. []),
       read_file = map_of demo_files,
       yaml_parse = demo_parse,
       yaml_emit = demo_emit \<rparr>"

definition demo_loader :: loader where
  "demo_loader = LocalLoader_init demo_world (Some [''A'', ''B'']) None None"

section \<open>Where an included file is looked for\<close>

lemma find_file_find:
  "find_file w f dirs =
     (case List.find (\<lambda>d. isfile w (expanduser w (path_join w d f))) dirs of
        None \<Rightarrow> f
      | Some d \<Rightarrow> expanduser w (path_join w d f))"
  by (induction dirs) (simp_all add: Let_def)



section \<open>When a path is deferred\<close>

lemma open_file_KeyError:
  "py_format p [] [] = Inl (KeyError k) \<Longrightarrow>
     open_file w c l (ScalarNode t p) = Inr (LazyLoader c l (ScalarNode t p))"
  by (simp add: open_file_def)

lemma open_file_formatted:
  "py_format p [] [] = Inr q \<Longrightarrow>
     open_file w c l (ScalarNode t p) =
       (case read_file w (find_file w p (search_path l)) of
          None \<Rightarrow> Inl (IOError (find_file w p (search_path l)))
        | Some contents \<Rightarrow> Inr (Str contents))"
  by (simp add: open_file_def Let_def)

lemma open_file_other_error:
  "py_format p [] [] = Inl e \<Longrightarrow> \<forall>k. e \<noteq> KeyError k \<Longrightarrow>
     open_file w c l (ScalarNode t p) = Inl e"
  by (cases e) (simp_all add: open_file_def)

lemma open_file_lazy_only_KeyError:
  assumes "open_file w c l (ScalarNode t p) = Inr v" and "is_LazyLoader v"
  shows "\<exists>k. py_format p [] [] = Inl (KeyError k)"
proof (cases "py_format p [] []")
  case (Inl e)
  show ?thesis
  proof (cases "\<exists>k. e = KeyError k")
    case True
    with Inl show ?thesis by auto
  next
    case False
    with Inl have "open_file w c l (ScalarNode t p) = Inl e"
      by (intro open_file_other_error) auto
    with assms show ?thesis by simp
  qed
next
  case (Inr q)
  with assms show ?thesis
    by (auto simp: open_file_formatted split: option.splits)
qed

text \<open>
  C2, as the code has it. A path is deferred exactly when formatting it with no
  arguments raises \<open>KeyError\<close> (a named placeholder is missing). When the formatting
  succeeds the path is resolved at once: the unformatted path is searched and read.
  Every other error of the formatting (\<open>IndexError\<close> for a positional placeholder,
  \<open>ValueError\<close> for a malformed brace) is not caught and leaves the parse.
\<close>

theorem open_file_lazy_iff_KeyError:
  "((\<exists>v. open_file w c l (ScalarNode t p) = Inr v \<and> is_LazyLoader v)
      \<longleftrightarrow> (\<exists>k. py_format p [] [] = Inl (KeyError k)))
   \<and> (\<forall>k. py_format p [] [] = Inl (KeyError k) \<longrightarrow>
        open_file w c l (ScalarNode t p) = Inr (LazyLoader c l (ScalarNode t p)))
   \<and> (\<forall>q. py_format p [] [] = Inr q \<longrightarrow>
        open_file w c l (ScalarNode t p) =
          (case read_file w (find_file w p (search_path l)) of
             None \<Rightarrow> Inl (IOError (find_file w p (search_path l)))
           | Some contents \<Rightarrow> Inr (Str contents)))
   \<and> (\<forall>e. py_format p [] [] = Inl e \<and> (\<forall>k. e \<noteq> KeyError k) \<longrightarrow>
        open_file w c l (ScalarNode t p) = Inl e)"
proof (intro conjI allI impI iffI)
  assume "\<exists>v. open_file w c l (ScalarNode t p) = Inr v \<and> is_LazyLoader v"
  then show "\<exists>k. py_format p [] [] = Inl (KeyError k)"
    using open_file_lazy_only_KeyError by blast
next
  assume "\<exists>k. py_format p [] [] = Inl (KeyError k)"
  then obtain k where "py_format p [] [] = Inl (KeyError k)" ..
  then have "open_file w c l (ScalarNode t p) = Inr (LazyLoader c l (ScalarNode t p))"
    by (rule open_file_KeyError)
  then show "\<exists>v. open_file w c l (ScalarNode t p) = Inr v \<and> is_LazyLoader v"
    by simp
next
  fix k assume "py_format p [] [] = Inl (KeyError k)"
  then show "open_file w c l (ScalarNode t p) = Inr (LazyLoader c l (ScalarNode t p))"
    by (rule open_file_KeyError)
next
  fix q assume "py_format p [] [] = Inr q"
  then show "open_file w c l (ScalarNode t p) =
          (case read_file w (find_file w p (search_path l)) of
             None \<Rightarrow> Inl (IOError (find_file w p (search_path l)))
           | Some contents \<Rightarrow> Inr (Str contents))"
    by (rule open_file_formatted)
next
  fix e assume "py_format p [] [] = Inl e \<and> (\<forall>k. e \<noteq> KeyError k)"
  then show "open_file w c l (ScalarNode t p) = Inl e"
    using open_file_other_error by blast
qed

lemma format_version_missing:
  "py_format ''{version}/file.txt'' [] [] = Inl (KeyError ''version'')"
  by (simp add: py_format_def get_arg_def arg_name_def is_digit_def)

lemma format_plain_path: "py_format ''1.0/file.txt'' [] [] = Inr ''1.0/file.txt''"
  by (simp add: py_format_def)

lemma demo_search_path: "search_path demo_loader = [''A'', ''B'', ''.'']"
  by (simp add: demo_loader_def LocalLoader_init_def demo_world_def curdir_def)

theorem open_file_lazy_iff_KeyError_witness:
  "open_file demo_world YamlIncludeRaw demo_loader (ScalarNode str_tag ''{version}/file.txt'')
     = Inr (LazyLoader YamlIncludeRaw demo_loader (ScalarNode str_tag ''{version}/file.txt''))
   \<and> open_file demo_world YamlIncludeRaw demo_loader (ScalarNode str_tag ''x.sh'')
     = Inr (Str ''echo A'')"
proof -
  have a: "open_file demo_world YamlIncludeRaw demo_loader
             (ScalarNode str_tag ''{version}/file.txt'')
     = Inr (LazyLoader YamlIncludeRaw demo_loader (ScalarNode str_tag ''{version}/file.txt''))"
    using open_file_lazy_iff_KeyError [of demo_world YamlIncludeRaw demo_loader str_tag
        "''{version}/file.txt''"] format_version_missing
    by blast
  have f: "py_format ''x.sh'' [] [] = Inr ''x.sh''"
    by (simp add: py_format_def)
  have ff: "find_file demo_world ''x.sh'' (search_path demo_loader) = ''A/x.sh''"
    by (simp add: find_file_find demo_search_path demo_world_def demo_files_def posix_join_def)
  have rd: "read_file demo_world ''A/x.sh'' = Some ''echo A''"
    by (simp add: demo_world_def demo_files_def)
  have b: "open_file demo_world YamlIncludeRaw demo_loader (ScalarNode str_tag ''x.sh'')
     = Inr (Str ''echo A'')"
    using open_file_lazy_iff_KeyError [of demo_world YamlIncludeRaw demo_loader str_tag
        "''x.sh''"] f ff rd
    by simp
  show ?thesis using a b by simp
qed

text \<open>
  The claim as the specification states it fails at the paths \<open>{0}/file.txt\<close> and
  \<open>{\<close>: the formatting raises \<open>IndexError\<close> and \<open>ValueError\<close>, neither is caught, and
  the path is neither deferred nor resolved.
\<close>

theorem open_file_error_escapes:
  "open_file demo_world YamlIncludeRaw demo_loader (ScalarNode str_tag ''{0}/file.txt'')
     = Inl IndexError
   \<and> open_file demo_world YamlIncludeRaw demo_loader (ScalarNode str_tag ''{'')
     = Inl (ValueError ''Single { encountered in format string'')"
  by (simp add: open_file_def py_format_def get_arg_def arg_name_def is_digit_def)

section \<open>Resolving a deferred inclusion\<close>

text \<open>
  \<open>LazyLoader.format\<close>: the value of the stored node is replaced by the formatted path
  (\<open>self._node.value = ...\<close>), then \<open>from_yaml\<close> of the stored class runs on the stored
  node. The result is the value returned together with the node the object holds
  afterwards. The node of a \<open>LazyLoader\<close> is a scalar node, as \<open>_open_file\<close> made it; on
  another node \<open>.value.format\<close> has no meaning (\<open>AttributeError\<close>).
\<close>

definition LazyLoader_format ::
  "world \<Rightarrow> nat \<Rightarrow> cls \<Rightarrow> loader \<Rightarrow> node \<Rightarrow> string list \<Rightarrow> (string \<times> string) list
     \<Rightarrow> (pyvalue \<times> node) run" where
  "LazyLoader_format w n c l nd args kwargs =
     (case nd of
        ScalarNode t v \<Rightarrow>
          (case py_format v args kwargs of
             Inl e \<Rightarrow> raiseM e
           | Inr v' \<Rightarrow>
               bindM (from_yaml w n c l (ScalarNode t v'))
                 (\<lambda>r. returnM (r, ScalarNode t v')))
      | _ \<Rightarrow> raiseM AttributeError)"

lemmas run_defs = returnM_def raiseM_def bindM_def liftM_def

section \<open>Escaping of a raw inclusion\<close>

lemma LocalLoader_escape_concat:
  "LocalLoader_escape s =
     concat (map (\<lambda>c. if c = CHR ''{'' \<or> c = CHR ''}'' then [c, c] else [c]) s)"
  by (induction s) simp_all

lemma raw_from_yaml_scalar:
  "YamlIncludeRaw_from_yaml w l (ScalarNode t p) a =
     liftM (open_file w YamlIncludeRaw l (ScalarNode t p)) a"
  by (simp add: YamlIncludeRaw_from_yaml_def from_yaml_body_def YamlIncludeRaw_from_file_def)

lemma raw_escape_eager:
  assumes "py_format p [] [] = Inr q"
    and "read_file w (find_file w p (search_path l)) = Some contents"
  shows "YamlIncludeRawEscape_from_yaml w l (ScalarNode t p) a =
           Some (Inr (Str (escape_callback l contents), a))"
  using assms
  by (simp add: YamlIncludeRawEscape_from_yaml_def raw_from_yaml_scalar open_file_formatted
      run_defs call_escape_def)

lemma raw_escape_lazy:
  assumes "py_format p [] [] = Inl (KeyError k)"
  shows "YamlIncludeRawEscape_from_yaml w l (ScalarNode t p) a =
           Some (Inr (LazyLoader YamlIncludeRaw l (ScalarNode t p), a))"
  using assms
  by (simp add: YamlIncludeRawEscape_from_yaml_def raw_from_yaml_scalar open_file_KeyError
      run_defs)

lemma raw_eager:
  assumes "py_format p [] [] = Inr q"
    and "read_file w (find_file w p (search_path l)) = Some contents"
  shows "YamlIncludeRaw_from_yaml w l (ScalarNode t p) a = Some (Inr (Str contents, a))"
  using assms by (simp add: raw_from_yaml_scalar open_file_formatted run_defs)

text \<open>
  For a single path the tag does what its documentation says: the text of a file found
  at parse time goes through the escape callback once, and a deferred path becomes a
  \<open>LazyLoader\<close> of class \<open>YamlIncludeRaw\<close>, whose later resolution returns the text as
  it is in the file.
\<close>

lemma raw_escape_single_path:
  "(py_format p [] [] = Inr q \<and> read_file w (find_file w p (search_path l)) = Some contents
      \<longrightarrow> YamlIncludeRawEscape_from_yaml w l (ScalarNode t p) a =
            Some (Inr (Str (escape_callback l contents), a)))
   \<and> (py_format p [] [] = Inl (KeyError k) \<and> py_format p args kwargs = Inr p'
      \<and> py_format p' [] [] = Inr q' \<and> read_file w (find_file w p' (search_path l)) = Some raw
      \<longrightarrow> YamlIncludeRawEscape_from_yaml w l (ScalarNode t p) a =
            Some (Inr (LazyLoader YamlIncludeRaw l (ScalarNode t p), a))
          \<and> LazyLoader_format w n YamlIncludeRaw l (ScalarNode t p) args kwargs a =
            Some (Inr ((Str raw, ScalarNode t p'), a)))"
  by (simp add: raw_escape_eager raw_escape_lazy LazyLoader_format_def raw_eager run_defs)

lemma format_name_missing: "py_format ''{name}.sh'' [] [] = Inl (KeyError ''name'')"
  by (simp add: py_format_def get_arg_def arg_name_def is_digit_def)

lemma format_x_sh: "py_format ''x.sh'' [] [] = Inr ''x.sh''"
  by (simp add: py_format_def)

lemma demo_find_x: "find_file demo_world ''x.sh'' (search_path demo_loader) = ''A/x.sh''"
  by (simp add: find_file_find demo_search_path demo_world_def demo_files_def posix_join_def)

lemma demo_read_x: "read_file demo_world ''A/x.sh'' = Some ''echo A''"
  by (simp add: demo_world_def demo_files_def)

text \<open>
  C4. With a list of paths of which one is deferred, \<open>YamlIncludeRaw.from_yaml\<close>
  returns a \<open>LazyLoaderCollection\<close>. That is not an instance of \<open>LazyLoader\<close>, so
  \<open>YamlIncludeRawEscape.from_yaml\<close> does not skip the escape step: it hands the
  collection to the escape callback, and \<open>_escape\<close> raises \<open>TypeError\<close>.
\<close>

theorem raw_escape_list_with_deferred_path:
  "YamlIncludeRawEscape_from_yaml demo_world demo_loader
       (SequenceNode seq_tag [ScalarNode str_tag ''{name}.sh'', ScalarNode str_tag ''x.sh'']) a
     = Some (Inl TypeError)
   \<and> YamlIncludeRaw_from_yaml demo_world demo_loader
       (SequenceNode seq_tag [ScalarNode str_tag ''{name}.sh'', ScalarNode str_tag ''x.sh'']) a
     = Some (Inr (LazyLoaderCollection
         [LazyLoader YamlIncludeRaw demo_loader (ScalarNode str_tag ''{name}.sh''),
          Str ''echo A''], a))"
proof -
  have o1: "open_file demo_world YamlIncludeRaw demo_loader (ScalarNode str_tag ''{name}.sh'')
      = Inr (LazyLoader YamlIncludeRaw demo_loader (ScalarNode str_tag ''{name}.sh''))"
    by (rule open_file_KeyError [OF format_name_missing])
  have o2: "open_file demo_world YamlIncludeRaw demo_loader (ScalarNode str_tag ''x.sh'')
      = Inr (Str ''echo A'')"
    by (simp add: open_file_formatted [OF format_x_sh] demo_find_x demo_read_x)
  have raw: "YamlIncludeRaw_from_yaml demo_world demo_loader
       (SequenceNode seq_tag [ScalarNode str_tag ''{name}.sh'', ScalarNode str_tag ''x.sh'']) a
     = Some (Inr (LazyLoaderCollection
         [LazyLoader YamlIncludeRaw demo_loader (ScalarNode str_tag ''{name}.sh''),
          Str ''echo A''], a))"
    by (simp add: YamlIncludeRaw_from_yaml_def from_yaml_body_def YamlIncludeRaw_from_file_def
        o1 o2 run_defs)
  have "YamlIncludeRawEscape_from_yaml demo_world demo_loader
       (SequenceNode seq_tag [ScalarNode str_tag ''{name}.sh'', ScalarNode str_tag ''x.sh'']) a
     = Some (Inl TypeError)"
    by (simp add: YamlIncludeRawEscape_from_yaml_def raw bindM_def returnM_def raiseM_def
        liftM_def call_escape_def)
  with raw show ?thesis by simp
qed

section \<open>A deferred inclusion and the inclusion of the formatted path\<close>

lemma from_yaml_deferred:
  assumes "py_format p [] [] = Inl (KeyError k)"
  shows "from_yaml w n c l (ScalarNode t p) a =
           Some (Inr (LazyLoader (if c = YamlIncludeRawEscape then YamlIncludeRaw else c) l
                        (ScalarNode t p), a))"
proof (cases c)
  case YamlInclude
  then show ?thesis
    using assms
    by (simp add: YamlInclude_from_yaml_def from_yaml_body_def open_file_KeyError run_defs)
next
  case YamlIncludeRaw
  then show ?thesis
    using assms by (simp add: raw_from_yaml_scalar open_file_KeyError run_defs)
next
  case YamlIncludeRawEscape
  then show ?thesis
    using assms by (simp add: raw_escape_lazy)
qed

lemma LazyLoader_format_value:
  assumes "py_format p args kwargs = Inr p'"
  shows "map_option (map_sum id (\<lambda>((r, nd), s). (r, s)))
           (LazyLoader_format w m c l (ScalarNode t p) args kwargs b) =
         from_yaml w m c l (ScalarNode t p') b"
  using assms
  by (auto simp: LazyLoader_format_def run_defs split: option.splits sum.splits)

text \<open>
  C7, as the code has it. A path \<open>p\<close> whose formatting with no arguments misses a named
  placeholder is deferred: the inclusion returns a \<open>LazyLoader\<close> that holds a class, the
  loader and the node of \<open>p\<close>. The class held is the class of the tag for \<open>!include:\<close>
  and \<open>!include-raw:\<close>, and \<open>YamlIncludeRaw\<close> for \<open>!include-raw-escape:\<close>. Resolving the
  reference with arguments that format \<open>p\<close> to \<open>p'\<close> returns what the inclusion of \<open>p'\<close>
  through the class held returns, on the same loader: the raised error, the value and
  the anchor table agree, and so does not returning. For \<open>!include:\<close> and
  \<open>!include-raw:\<close> that is the inclusion of \<open>p'\<close> through the tag itself. For the raw
  tags, when \<open>p'\<close> has no placeholder left and the file is found, the resolution
  returns the text of the file as it is, which is what \<open>!include-raw:\<close> of \<open>p'\<close>
  returns, while \<open>!include-raw-escape:\<close> of \<open>p'\<close> returns that text through the escape
  callback.
\<close>

theorem lazy_resolve_is_include_of_formatted_path:
  assumes "py_format p [] [] = Inl (KeyError k)"
    and "py_format p args kwargs = Inr p'"
  shows "\<exists>c'. c' = (if c = YamlIncludeRawEscape then YamlIncludeRaw else c)
           \<and> from_yaml w n c l (ScalarNode t p) a =
               Some (Inr (LazyLoader c' l (ScalarNode t p), a))
           \<and> map_option (map_sum id (\<lambda>((r, nd), s). (r, s)))
               (LazyLoader_format w m c' l (ScalarNode t p) args kwargs b) =
             from_yaml w m c' l (ScalarNode t p') b
           \<and> (c \<noteq> YamlIncludeRawEscape \<longrightarrow>
               map_option (map_sum id (\<lambda>((r, nd), s). (r, s)))
                 (LazyLoader_format w m c' l (ScalarNode t p) args kwargs b) =
               from_yaml w m c l (ScalarNode t p') b)
           \<and> (\<forall>q' contents.
                c \<noteq> YamlInclude \<and> py_format p' [] [] = Inr q'
                \<and> read_file w (find_file w p' (search_path l)) = Some contents \<longrightarrow>
                  LazyLoader_format w m c' l (ScalarNode t p) args kwargs b =
                    Some (Inr ((Str contents, ScalarNode t p'), b))
                  \<and> from_yaml w m c l (ScalarNode t p') b =
                    Some (Inr (Str (if c = YamlIncludeRawEscape
                                    then escape_callback l contents else contents), b)))"
proof -
  define c' where "c' = (if c = YamlIncludeRawEscape then YamlIncludeRaw else c)"
  have cr: "from_yaml w n c l (ScalarNode t p) a =
      Some (Inr (LazyLoader c' l (ScalarNode t p), a))"
    unfolding c'_def by (rule from_yaml_deferred [OF assms(1)])
  have eq: "map_option (map_sum id (\<lambda>((r, nd), s). (r, s)))
               (LazyLoader_format w m c' l (ScalarNode t p) args kwargs b) =
             from_yaml w m c' l (ScalarNode t p') b"
    by (rule LazyLoader_format_value [OF assms(2)])
  have same: "map_option (map_sum id (\<lambda>((r, nd), s). (r, s)))
                 (LazyLoader_format w m c' l (ScalarNode t p) args kwargs b) =
               from_yaml w m c l (ScalarNode t p') b"
    if "c \<noteq> YamlIncludeRawEscape"
    using that eq by (simp add: c'_def)
  have raw: "LazyLoader_format w m c' l (ScalarNode t p) args kwargs b =
                    Some (Inr ((Str contents, ScalarNode t p'), b))
                  \<and> from_yaml w m c l (ScalarNode t p') b =
                    Some (Inr (Str (if c = YamlIncludeRawEscape
                                    then escape_callback l contents else contents), b))"
    if h: "c \<noteq> YamlInclude \<and> py_format p' [] [] = Inr q'
          \<and> read_file w (find_file w p' (search_path l)) = Some contents"
    for q' contents
  proof -
    from h have f: "py_format p' [] [] = Inr q'"
      and r: "read_file w (find_file w p' (search_path l)) = Some contents"
      and ni: "c \<noteq> YamlInclude"
      by simp_all
    from ni have c'r: "c' = YamlIncludeRaw"
      by (cases c) (simp_all add: c'_def)
    have 1: "LazyLoader_format w m c' l (ScalarNode t p) args kwargs b =
        Some (Inr ((Str contents, ScalarNode t p'), b))"
      by (simp add: c'r LazyLoader_format_def assms(2) raw_eager [OF f r] run_defs)
    have 2: "from_yaml w m c l (ScalarNode t p') b =
        Some (Inr (Str (if c = YamlIncludeRawEscape
                        then escape_callback l contents else contents), b))"
      using ni by (cases c) (simp_all add: raw_eager [OF f r] raw_escape_eager [OF f r])
    from 1 2 show ?thesis by simp
  qed
  note raw1 = raw [THEN conjunct1] and raw2 = raw [THEN conjunct2]
  show ?thesis
    by (intro exI [of _ c'] conjI allI impI) (rule c'_def cr eq | erule same raw1 raw2)+
qed

lemma format_version_1:
  "py_format ''{version}/file.txt'' [] [(''version'', ''1.0'')] = Inr ''1.0/file.txt''"
  by (simp add: py_format_def get_arg_def arg_name_def is_digit_def)

lemma demo_find_v1:
  "find_file demo_world ''1.0/file.txt'' (search_path demo_loader) = ''1.0/file.txt''"
  by (simp add: find_file_find demo_search_path demo_world_def demo_files_def posix_join_def)

lemma demo_read_v1: "read_file demo_world ''1.0/file.txt'' = Some ''v{1}''"
  by (simp add: demo_world_def demo_files_def)

lemma demo_include_v1:
  "from_yaml demo_world m YamlIncludeRaw demo_loader (ScalarNode str_tag ''1.0/file.txt'') b =
     Some (Inr (Str ''v{1}'', b))"
  by (simp add: raw_eager [OF format_plain_path] demo_find_v1 demo_read_v1)

theorem lazy_resolve_is_include_of_formatted_path_witness:
  "from_yaml demo_world 0 YamlIncludeRaw demo_loader (ScalarNode str_tag ''{version}/file.txt'')
       Map.empty =
     Some (Inr (LazyLoader YamlIncludeRaw demo_loader (ScalarNode str_tag ''{version}/file.txt''),
                Map.empty))
   \<and> LazyLoader_format demo_world 0 YamlIncludeRaw demo_loader
          (ScalarNode str_tag ''{version}/file.txt'') [] [(''version'', ''1.0'')] Map.empty =
     Some (Inr ((Str ''v{1}'', ScalarNode str_tag ''1.0/file.txt''), Map.empty))
   \<and> from_yaml demo_world 0 YamlIncludeRaw demo_loader (ScalarNode str_tag ''1.0/file.txt'')
       Map.empty =
     Some (Inr (Str ''v{1}'', Map.empty))"
  using lazy_resolve_is_include_of_formatted_path
    [OF format_version_missing format_version_1, of YamlIncludeRaw demo_world 0 demo_loader
      str_tag Map.empty 0 Map.empty]
    format_plain_path demo_find_v1 demo_read_v1
  by simp

lemma format_n_missing: "py_format ''{n}.sh'' [] [] = Inl (KeyError ''n'')"
  by (simp add: py_format_def get_arg_def arg_name_def is_digit_def)

lemma format_n_y: "py_format ''{n}.sh'' [] [(''n'', ''y'')] = Inr ''y.sh''"
  by (simp add: py_format_def get_arg_def arg_name_def is_digit_def)

lemma format_y_sh: "py_format ''y.sh'' [] [] = Inr ''y.sh''"
  by (simp add: py_format_def)

lemma demo_find_y: "find_file demo_world ''y.sh'' (search_path demo_loader) = ''B/y.sh''"
  by (simp add: find_file_find demo_search_path demo_world_def demo_files_def posix_join_def)

lemma demo_read_y: "read_file demo_world ''B/y.sh'' = Some ''echo ${Y}''"
  by (simp add: demo_world_def demo_files_def)

lemma demo_escape_y: "escape_callback demo_loader ''echo ${Y}'' = ''echo ${{Y}}''"
  by (simp add: demo_loader_def LocalLoader_init_def)

text \<open>
  The claim as the specification states it fails for \<open>!include-raw-escape:\<close>. With the
  file \<open>y.sh\<close> holding \<open>echo ${Y}\<close>, the tag on the path \<open>{n}.sh\<close> gives a reference of
  class \<open>YamlIncludeRaw\<close>; resolved with \<open>n = y\<close> it returns \<open>echo ${Y}\<close>, and the same
  tag on the path \<open>y.sh\<close> returns \<open>echo ${{Y}}\<close>.
\<close>

theorem lazy_resolve_raw_escape_differs:
  "from_yaml demo_world 0 YamlIncludeRawEscape demo_loader (ScalarNode str_tag ''{n}.sh'') Map.empty =
     Some (Inr (LazyLoader YamlIncludeRaw demo_loader (ScalarNode str_tag ''{n}.sh''), Map.empty))
   \<and> LazyLoader_format demo_world 0 YamlIncludeRaw demo_loader
       (ScalarNode str_tag ''{n}.sh'') [] [(''n'', ''y'')] Map.empty =
     Some (Inr ((Str ''echo ${Y}'', ScalarNode str_tag ''y.sh''), Map.empty))
   \<and> from_yaml demo_world 0 YamlIncludeRawEscape demo_loader (ScalarNode str_tag ''y.sh'') Map.empty =
     Some (Inr (Str ''echo ${{Y}}'', Map.empty))
   \<and> map_option (map_sum id (\<lambda>((r, nd), s). (r, s)))
       (LazyLoader_format demo_world 0 YamlIncludeRaw demo_loader
          (ScalarNode str_tag ''{n}.sh'') [] [(''n'', ''y'')] Map.empty) \<noteq>
     from_yaml demo_world 0 YamlIncludeRawEscape demo_loader (ScalarNode str_tag ''y.sh'') Map.empty"
proof -
  have 1: "from_yaml demo_world 0 YamlIncludeRawEscape demo_loader
        (ScalarNode str_tag ''{n}.sh'') Map.empty =
      Some (Inr (LazyLoader YamlIncludeRaw demo_loader (ScalarNode str_tag ''{n}.sh''), Map.empty))"
    by (simp add: raw_escape_lazy [OF format_n_missing])
  have 2: "LazyLoader_format demo_world 0 YamlIncludeRaw demo_loader
       (ScalarNode str_tag ''{n}.sh'') [] [(''n'', ''y'')] Map.empty =
     Some (Inr ((Str ''echo ${Y}'', ScalarNode str_tag ''y.sh''), Map.empty))"
    by (simp add: LazyLoader_format_def format_n_y run_defs
        raw_eager [OF format_y_sh] demo_find_y demo_read_y)
  have 3: "from_yaml demo_world 0 YamlIncludeRawEscape demo_loader
        (ScalarNode str_tag ''y.sh'') Map.empty =
      Some (Inr (Str ''echo ${{Y}}'', Map.empty))"
    by (simp add: raw_escape_eager [OF format_y_sh] demo_find_y demo_read_y demo_escape_y)
  from 1 2 3 show ?thesis by simp
qed

section \<open>What resolving leaves in the reference\<close>

lemma LazyLoader_format_node:
  assumes "LazyLoader_format w m c l (ScalarNode t p) args kwargs b = Some (Inr ((r, nd), s))"
  shows "\<exists>p'. py_format p args kwargs = Inr p' \<and> nd = ScalarNode t p'"
  using assms
  by (auto simp: LazyLoader_format_def run_defs split: option.splits sum.splits)

lemma format_version_2_after:
  "py_format ''1.0/file.txt'' [] [(''version'', ''2.0'')] = Inr ''1.0/file.txt''"
  by (simp add: py_format_def)

lemma format_version_2:
  "py_format ''{version}/file.txt'' [] [(''version'', ''2.0'')] = Inr ''2.0/file.txt''"
  by (simp add: py_format_def get_arg_def arg_name_def is_digit_def)

lemma format_plain_path_2: "py_format ''2.0/file.txt'' [] [] = Inr ''2.0/file.txt''"
  by (simp add: py_format_def)

lemma demo_find_v2:
  "find_file demo_world ''2.0/file.txt'' (search_path demo_loader) = ''2.0/file.txt''"
  by (simp add: find_file_find demo_search_path demo_world_def demo_files_def posix_join_def)

lemma demo_read_v2: "read_file demo_world ''2.0/file.txt'' = Some ''v{2}''"
  by (simp add: demo_world_def demo_files_def)

text \<open>
  C8. \<open>LazyLoader.format\<close> assigns the formatted path to \<open>self._node.value\<close>. After the
  reference for \<open>{version}/file.txt\<close> was resolved with \<open>version = 1.0\<close> it holds the
  path \<open>1.0/file.txt\<close>; resolving it again with \<open>version = 2.0\<close> reads \<open>1.0/file.txt\<close>
  once more, where the inclusion of \<open>2.0/file.txt\<close> gives another text.
\<close>

theorem lazy_resolve_overwrites_path:
  "LazyLoader_format demo_world m YamlIncludeRaw demo_loader
       (ScalarNode str_tag ''{version}/file.txt'') [] [(''version'', ''1.0'')] b =
     Some (Inr ((Str ''v{1}'', ScalarNode str_tag ''1.0/file.txt''), b))
   \<and> LazyLoader_format demo_world m YamlIncludeRaw demo_loader
       (ScalarNode str_tag ''1.0/file.txt'') [] [(''version'', ''2.0'')] b =
     Some (Inr ((Str ''v{1}'', ScalarNode str_tag ''1.0/file.txt''), b))
   \<and> from_yaml demo_world m YamlIncludeRaw demo_loader (ScalarNode str_tag ''2.0/file.txt'') b =
     Some (Inr (Str ''v{2}'', b))"
  by (simp add: LazyLoader_format_def format_version_1 format_version_2_after run_defs
      raw_eager [OF format_plain_path] raw_eager [OF format_plain_path_2]
      demo_find_v1 demo_read_v1 demo_find_v2 demo_read_v2)

section \<open>Anchors across the documents of a session\<close>

text \<open>
  \<open>embed\<close> writes a composed node as a document without anchors; \<open>subst_alias A v\<close>
  puts the node \<open>v\<close> in place of every alias \<open>*A\<close>. \<open>has_anchor A\<close> and \<open>has_alias A\<close>
  say that a document defines the anchor \<open>&A\<close> and that it refers to it.
\<close>

fun embed :: "node \<Rightarrow> ynode" where
  "embed (ScalarNode t v) = YScalar None t v"
| "embed (SequenceNode t ns) = YSeq None t (map embed ns)"
| "embed (MappingNode t kvs) = YMap None t (map (\<lambda>(k, v). (embed k, embed v)) kvs)"


fun has_anchor :: "string \<Rightarrow> ynode \<Rightarrow> bool" where
  "has_anchor A (YAlias n) = False"
| "has_anchor A (YScalar anc t x) = (anc = Some A)"
| "has_anchor A (YSeq anc t items) = (anc = Some A \<or> list_ex (has_anchor A) items)"
| "has_anchor A (YMap anc t items) =
     (anc = Some A \<or> list_ex (\<lambda>(k, x). has_anchor A k \<or> has_anchor A x) items)"


lemma register_keeps:
  "\<not> duplicate_anchor a anc \<Longrightarrow> a n = Some e \<Longrightarrow> register a anc x n = Some e"
  by (cases anc) auto

lemma register_other:
  "anc \<noteq> Some n \<Longrightarrow> register b anc x n = b n"
  by (cases anc) auto

lemma not_duplicate_other:
  "\<not> duplicate_anchor a anc \<Longrightarrow> a n = Some e \<Longrightarrow> anc \<noteq> Some n"
  by (cases anc) auto

lemma compose_preserves:
  "compose_node a y = Inr (nd, b) \<Longrightarrow> a n = Some e \<Longrightarrow> b n = Some e"
  "compose_seq a ys = Inr (ns, b) \<Longrightarrow> a n = Some e \<Longrightarrow> b n = Some e"
  "compose_map a kvs = Inr (r, b) \<Longrightarrow> a n = Some e \<Longrightarrow> b n = Some e"
proof (induction a y and a ys and a kvs arbitrary: nd b and ns b and r b
    rule: compose_node_compose_seq_compose_map.induct)
  case (1 a m)
  then show ?case by (auto split: option.splits anchor_entry.splits)
next
  case (2 a anc t v)
  then show ?case by (cases anc) (auto split: if_splits)
next
  case (3 a anc t items)
  from "3.prems"(1) have nd: "\<not> duplicate_anchor a anc"
    by (auto split: if_splits)
  with "3.prems"(1) obtain ns b' where
    c: "compose_seq (register a anc Composing) items = Inr (ns, b')"
    and b: "b = register b' anc (Composed (SequenceNode t ns))"
    by (auto split: sum.splits)
  have "register a anc Composing n = Some e"
    using nd "3.prems"(2) by (rule register_keeps)
  with "3.IH" [OF nd c] have "b' n = Some e" .
  then show ?case
    using b not_duplicate_other [OF nd "3.prems"(2)] by (simp add: register_other)
next
  case (4 a anc t items)
  from "4.prems"(1) have nd: "\<not> duplicate_anchor a anc"
    by (auto split: if_splits)
  with "4.prems"(1) obtain kvs b' where
    c: "compose_map (register a anc Composing) items = Inr (kvs, b')"
    and b: "b = register b' anc (Composed (MappingNode t kvs))"
    by (auto split: sum.splits)
  have "register a anc Composing n = Some e"
    using nd "4.prems"(2) by (rule register_keeps)
  with "4.IH" [OF nd c] have "b' n = Some e" .
  then show ?case
    using b not_duplicate_other [OF nd "4.prems"(2)] by (simp add: register_other)
next
  case (5 a)
  then show ?case by simp
next
  case (6 a y ys)
  then show ?case by (auto split: sum.splits)
next
  case (7 a)
  then show ?case by simp
next
  case (8 a k v rest)
  then show ?case by (auto split: sum.splits)
qed


lemma compose_embed:
  "compose_node a (embed nd) = Inr (nd, a)"
proof (induction nd arbitrary: a)
  case (ScalarNode t v)
  show ?case by simp
next
  case (SequenceNode t ns)
  have "compose_seq a (map embed ns) = Inr (ns, a)" for a
    using SequenceNode by (induction ns arbitrary: a) simp_all
  then show ?case by simp
next
  case (MappingNode t kvs)
  have el: "compose_node a (embed k) = Inr (k, a) \<and> compose_node a (embed v) = Inr (v, a)"
    if "(k, v) \<in> set kvs" for k v a
    using MappingNode [of "(k, v)"] that by simp
  have "compose_map a (map (\<lambda>(k, v). (embed k, embed v)) kvs) = Inr (kvs, a)" for a
    using el
  proof (induction kvs arbitrary: a)
    case Nil
    show ?case by simp
  next
    case (Cons kv kvs)
    obtain k v where kv: "kv = (k, v)" by (cases kv)
    have "compose_node a (embed k) = Inr (k, a)" for a
      using Cons.prems [of k v] kv by simp
    moreover have "compose_node a (embed v) = Inr (v, a)" for a
      using Cons.prems [of k v] kv by simp
    moreover have "compose_map a (map (\<lambda>(k, v). (embed k, embed v)) kvs) = Inr (kvs, a)" for a
      by (rule Cons.IH) (use Cons.prems in auto)
    ultimately show ?case using kv by simp
  qed
  then show ?case by simp
qed



lemma compose_registers:
  "compose_node a y = Inr (nd, b) \<Longrightarrow> has_anchor A y \<Longrightarrow> \<exists>v. b A = Some (Composed v)"
  "compose_seq a ys = Inr (ns, b) \<Longrightarrow> list_ex (has_anchor A) ys
     \<Longrightarrow> \<exists>v. b A = Some (Composed v)"
  "compose_map a kvs = Inr (r, b) \<Longrightarrow> list_ex (\<lambda>(k, x). has_anchor A k \<or> has_anchor A x) kvs
     \<Longrightarrow> \<exists>v. b A = Some (Composed v)"
proof (induction a y and a ys and a kvs arbitrary: nd b and ns b and r b
    rule: compose_node_compose_seq_compose_map.induct)
  case (1 a m)
  then show ?case by simp
next
  case (2 a anc t v)
  then show ?case by (auto split: if_splits)
next
  case (3 a anc t items)
  from "3.prems"(1) have nd: "\<not> duplicate_anchor a anc"
    by (auto split: if_splits)
  with "3.prems"(1) obtain ns b' where
    c: "compose_seq (register a anc Composing) items = Inr (ns, b')"
    and b: "b = register b' anc (Composed (SequenceNode t ns))"
    by (auto split: sum.splits)
  show ?case
  proof (cases "anc = Some A")
    case True
    with b show ?thesis by simp
  next
    case False
    with "3.prems"(2) have "list_ex (has_anchor A) items" by simp
    from "3.IH" [OF nd c this] obtain v where "b' A = Some (Composed v)" ..
    with b False show ?thesis by (simp add: register_other)
  qed
next
  case (4 a anc t items)
  from "4.prems"(1) have nd: "\<not> duplicate_anchor a anc"
    by (auto split: if_splits)
  with "4.prems"(1) obtain kvs b' where
    c: "compose_map (register a anc Composing) items = Inr (kvs, b')"
    and b: "b = register b' anc (Composed (MappingNode t kvs))"
    by (auto split: sum.splits)
  show ?case
  proof (cases "anc = Some A")
    case True
    with b show ?thesis by simp
  next
    case False
    with "4.prems"(2) have "list_ex (\<lambda>(k, x). has_anchor A k \<or> has_anchor A x) items"
      by simp
    from "4.IH" [OF nd c this] obtain v where "b' A = Some (Composed v)" ..
    with b False show ?thesis by (simp add: register_other)
  qed
next
  case (5 a)
  then show ?case by simp
next
  case (6 a y ys)
  from "6.prems"(1) obtain n b1 ns' where
    c1: "compose_node a y = Inr (n, b1)" and c2: "compose_seq b1 ys = Inr (ns', b)"
    by (auto split: sum.splits)
  show ?case
  proof (cases "has_anchor A y")
    case True
    from "6.IH"(1) [OF c1 True] obtain v where "b1 A = Some (Composed v)" ..
    with compose_preserves(2) [OF c2] show ?thesis by blast
  next
    case False
    with "6.prems"(2) have "list_ex (has_anchor A) ys" by simp
    from "6.IH"(2) [OF c1 refl c2 this] show ?thesis .
  qed
next
  case (7 a)
  then show ?case by simp
next
  case (8 a k x rest)
  from "8.prems"(1) obtain kn b1 vn b2 kvs' where
    c1: "compose_node a k = Inr (kn, b1)" and c2: "compose_node b1 x = Inr (vn, b2)"
    and c3: "compose_map b2 rest = Inr (kvs', b)"
    by (auto split: sum.splits)
  consider "has_anchor A k" | "has_anchor A x"
    | "list_ex (\<lambda>(k, x). has_anchor A k \<or> has_anchor A x) rest"
    using "8.prems"(2) by auto
  then show ?case
  proof cases
    case 1
    from "8.IH"(1) [OF c1 1] obtain v where "b1 A = Some (Composed v)" ..
    then have "b2 A = Some (Composed v)" using compose_preserves(1) [OF c2] by blast
    with compose_preserves(3) [OF c3] show ?thesis by blast
  next
    case 2
    from "8.IH"(2) [OF c1 refl c2 2] obtain v where "b2 A = Some (Composed v)" ..
    with compose_preserves(3) [OF c3] show ?thesis by blast
  next
    case 3
    from "8.IH"(3) [OF c1 refl c2 refl c3 3] show ?thesis .
  qed
qed



function plain :: "ynode \<Rightarrow> node option"
  and plain_seq :: "ynode list \<Rightarrow> node list option"
  and plain_map :: "(ynode \<times> ynode) list \<Rightarrow> (node \<times> node) list option" where
  "plain (YAlias n) = None"
| "plain (YScalar anc t x) = Some (ScalarNode t x)"
| "plain (YSeq anc t items) =
     (case plain_seq items of None \<Rightarrow> None | Some ns \<Rightarrow> Some (SequenceNode t ns))"
| "plain (YMap anc t items) =
     (case plain_map items of None \<Rightarrow> None | Some kvs \<Rightarrow> Some (MappingNode t kvs))"
| "plain_seq [] = Some []"
| "plain_seq (y # ys) =
     (case plain y of
        None \<Rightarrow> None
      | Some n \<Rightarrow> (case plain_seq ys of None \<Rightarrow> None | Some ns \<Rightarrow> Some (n # ns)))"
| "plain_map [] = Some []"
| "plain_map ((k, x) # rest) =
     (case plain k of
        None \<Rightarrow> None
      | Some kn \<Rightarrow>
          (case plain x of
             None \<Rightarrow> None
           | Some xn \<Rightarrow>
               (case plain_map rest of None \<Rightarrow> None | Some kvs \<Rightarrow> Some ((kn, xn) # kvs))))"
  by pat_completeness auto
termination
  by (relation "measure (case_sum size
         (case_sum (size_list size) (size_list (size_prod size size))))")
     auto




lemma load_fresh:
  "load w n nm src sp esc a = yaml_load w n nm src sp esc Map.empty"
  by (simp add: load_def reset_anchors_def)













section \<open>Dumping\<close>

text \<open>
  \<open>dump\<close> is \<open>yaml.dump\<close> with a \<open>LocalDumper\<close>, which registers
  \<open>represent_yaml_mapping\<close> for \<open>OrderedDict\<close>. That method calls PyYAML's
  \<open>represent_mapping\<close> with the plain mapping tag, and \<open>represent_mapping\<close> sorts the
  items of the mapping before it represents them (\<open>sorted(mapping.items())\<close>, which
  orders items with distinct keys by key). The model has the mappings whose keys are
  strings, ordered as Python orders strings; a scalar of another type is written back
  with its tag and text. Objects of the loader's own classes have no plain
  representation.
\<close>

lemma size_list_insort_key:
  "size_list f (insort_key k x xs) = Suc (f x + size_list f xs)"
  by (induction xs) auto

lemma size_list_sort_key: "size_list f (sort_key k xs) = size_list f xs"
  by (induction xs) (auto simp: size_list_insort_key)

definition null_tag :: string where
  "null_tag = ''tag:yaml.org,2002:null''"

function represent_data :: "pyvalue \<Rightarrow> error + node"
  and represent_list :: "pyvalue list \<Rightarrow> error + node list"
  and represent_items :: "(pyvalue \<times> pyvalue) list \<Rightarrow> error + (node \<times> node) list" where
  "represent_data PyNone = Inr (ScalarNode null_tag ''null'')"
| "represent_data (Str s) = Inr (ScalarNode str_tag s)"
| "represent_data (PyScalar t v) = Inr (ScalarNode t v)"
| "represent_data (PyList vs) =
     (case represent_list vs of Inl e \<Rightarrow> Inl e | Inr ns \<Rightarrow> Inr (SequenceNode seq_tag ns))"
| "represent_data (OrderedDict items) =
     (if list_all (\<lambda>(k, v). is_Str k) items then
        (case represent_items (sort_key (\<lambda>(k, v). str_of k) items) of
           Inl e \<Rightarrow> Inl e
         | Inr kvs \<Rightarrow> Inr (MappingNode map_tag kvs))
      else Inl Unsupported)"
| "represent_data (LazyLoader c l nd) = Inl Unsupported"
| "represent_data (LazyLoaderCollection vs) = Inl Unsupported"
| "represent_list [] = Inr []"
| "represent_list (v # vs) =
     (case represent_data v of
        Inl e \<Rightarrow> Inl e
      | Inr n \<Rightarrow> (case represent_list vs of Inl e \<Rightarrow> Inl e | Inr ns \<Rightarrow> Inr (n # ns)))"
| "represent_items [] = Inr []"
| "represent_items ((k, v) # rest) =
     (case represent_data k of
        Inl e \<Rightarrow> Inl e
      | Inr kn \<Rightarrow>
          (case represent_data v of
             Inl e \<Rightarrow> Inl e
           | Inr vn \<Rightarrow>
               (case represent_items rest of
                  Inl e \<Rightarrow> Inl e
                | Inr kvs \<Rightarrow> Inr ((kn, vn) # kvs))))"
  by pat_completeness auto
termination
  by (relation "measure (case_sum size
         (case_sum (size_list size) (size_list (size_prod size size))))")
     (auto simp: size_list_sort_key)

definition dump :: "world \<Rightarrow> pyvalue \<Rightarrow> error + string" where
  "dump w data =
     (case represent_data data of Inl e \<Rightarrow> Inl e | Inr nd \<Rightarrow> Inr (yaml_emit w nd))"



lemma map_insort_key: "map f (insort_key f x xs) = insort (f x) (map f xs)"
  by (induction xs) simp_all

lemma map_sort_key: "map f (sort_key f xs) = sort (map f xs)"
  by (induction xs) (simp_all add: map_insort_key)

section \<open>The order of the keys of a mapping\<close>

definition add_key :: "'a list \<Rightarrow> 'a \<Rightarrow> 'a list" where
  "add_key ks k = (if k \<in> set ks then ks else ks @ [k])"

lemma od_set_keys: "map fst (od_set k v m) = add_key (map fst m) k"
  by (induction m) (fastforce simp: add_key_def)+

lemma foldl_add_key_distinct:
  "distinct (ks0 @ ks) \<Longrightarrow> foldl add_key ks0 ks = ks0 @ ks"
  by (induction ks arbitrary: ks0) (auto simp: add_key_def)

lemma od_set_new: "k \<notin> fst ` set d \<Longrightarrow> od_set k v d = d @ [(k, v)]"
  by (induction d) auto

lemma od_update_distinct:
  "distinct (map fst d @ map fst m) \<Longrightarrow> od_update d m = d @ m"
proof (induction m arbitrary: d)
  case Nil
  show ?case by simp
next
  case (Cons kv m)
  obtain k v where kv: "kv = (k, v)" by (cases kv)
  with Cons.prems have "k \<notin> fst ` set d" by auto
  then have "od_set k v d = d @ [(k, v)]" by (rule od_set_new)
  moreover have "distinct (map fst (d @ [(k, v)]) @ map fst m)"
    using Cons.prems kv by auto
  ultimately show ?case using Cons.IH [of "d @ [(k, v)]"] kv by simp
qed

lemma construct_items_keys:
  assumes "\<And>k x s. (k, x) \<in> set kvs \<Longrightarrow> construct k s = None \<or> construct k s = returnM (kf k) s"
    and "construct_items construct m kvs a = Some (Inr (m', b))"
  shows "map fst m' = foldl add_key (map fst m) (map (\<lambda>(k, x). kf k) kvs)"
  using assms
proof (induction kvs arbitrary: m a)
  case Nil
  then show ?case by (simp add: returnM_def)
next
  case (Cons kv kvs)
  obtain k x where kv: "kv = (k, x)" by (cases kv)
  have pure: "construct k a = None \<or> construct k a = returnM (kf k) a"
    using Cons.prems(1) [of k x a] kv by simp
  from Cons.prems(2) kv have ck: "construct k a = returnM (kf k) a"
    using pure by (auto simp: bindM_def)
  with Cons.prems(2) kv obtain val a' where
    rest: "construct_items construct (od_set (kf k) val m) kvs a' = Some (Inr (m', b))"
    by (auto simp: run_defs split: if_splits option.splits sum.splits)
  have "map fst m' =
      foldl add_key (map fst (od_set (kf k) val m)) (map (\<lambda>(k, x). kf k) kvs)"
    by (rule Cons.IH [OF _ rest]) (use Cons.prems(1) in auto)
  then show ?case using kv by (simp add: od_set_keys)
qed

lemma flatten_loop_plain:
  "list_all (\<lambda>(k, x). node_tag k \<noteq> merge_tag \<and> node_tag k \<noteq> value_tag) kvs
     \<Longrightarrow> flatten_loop kvs = Inr ([], kvs)"
proof (induction kvs)
  case Nil
  show ?case by simp
next
  case (Cons kv kvs)
  obtain k x where kv: "kv = (k, x)" by (cases kv)
  with Cons.prems have "retag k = k" by (cases k) auto
  with Cons kv show ?case by simp
qed

lemma flatten_mapping_plain:
  "list_all (\<lambda>(k, x). node_tag k \<noteq> merge_tag \<and> node_tag k \<noteq> value_tag) kvs
     \<Longrightarrow> flatten_mapping kvs = Inr kvs"
  by (simp add: flatten_loop_plain)

lemma construct_str_scalar:
  "construct_object w n l (ScalarNode str_tag s) a = None
   \<or> construct_object w n l (ScalarNode str_tag s) a = returnM (Str s) a"
  by (cases n) (simp_all add: str_tag_def map_tag_def)

lemma parsed_keys:
  assumes "construct_object w n l (MappingNode map_tag kvs) a = Some (Inr (v, b))"
    and "map fst kvs = map (ScalarNode str_tag) ks"
    and "distinct ks"
  shows "\<exists>items. v = OrderedDict items \<and> map fst items = map Str ks"
proof -
  from assms(1) obtain m where n: "n = Suc m" by (cases n) auto
  have plain: "list_all (\<lambda>(k, x). node_tag k \<noteq> merge_tag \<and> node_tag k \<noteq> value_tag) kvs"
    using assms(2)
    by (induction kvs arbitrary: ks)
       (auto simp: str_tag_def merge_tag_def value_tag_def)
  have keyform: "\<exists>s. k = ScalarNode str_tag s" if "(k, x) \<in> set kvs" for k x
  proof -
    from that have "k \<in> set (map fst kvs)" by force
    with assms(2) show ?thesis by auto
  qed
  define kf where "kf = (\<lambda>k. case k of ScalarNode t s \<Rightarrow> Str s | _ \<Rightarrow> PyNone)"
  have pure: "construct_object w m l k s = None
              \<or> construct_object w m l k s = returnM (kf k) s"
    if "(k, x) \<in> set kvs" for k x s
  proof -
    from keyform [OF that] obtain s0 where "k = ScalarNode str_tag s0" ..
    then show ?thesis
      using construct_str_scalar [of w m l s0 s] by (simp add: kf_def)
  qed
  from assms(1) n obtain mapping where
    ci: "construct_items (\<lambda>x b. construct_object w m l x b) [] kvs a = Some (Inr (mapping, b))"
    and v: "v = OrderedDict (od_update [] mapping)"
    by (auto simp: map_tag_def construct_yaml_map_def flatten_mapping_plain [OF plain]
        run_defs simp del: flatten_mapping.simps split: option.splits sum.splits)
  have "map fst mapping =
      foldl add_key (map fst ([] :: (pyvalue \<times> pyvalue) list)) (map (\<lambda>(k, x). kf k) kvs)"
  proof (rule construct_items_keys [where construct = "construct_object w m l" and kf = kf
        and kvs = kvs and m = "[]" and a = a and m' = mapping and b = b])
    fix k x s
    assume "(k, x) \<in> set kvs"
    then show "construct_object w m l k s = None
               \<or> construct_object w m l k s = returnM (kf k) s"
      by (rule pure)
  next
    show "construct_items (construct_object w m l) [] kvs a = Some (Inr (mapping, b))"
      using ci .
  qed
  then have km: "map fst mapping = foldl add_key [] (map (\<lambda>(k, x). kf k) kvs)"
    by simp
  have e1: "map (\<lambda>(k, x). kf k) kvs = map kf (map fst kvs)"
    by (induction kvs) auto
  have e2: "map kf (map (ScalarNode str_tag) ks) = map Str ks"
    by (simp add: kf_def)
  have "map fst mapping = foldl add_key [] (map Str ks)"
    unfolding km e1 assms(2) e2 ..
  also have "\<dots> = map Str ks"
    using foldl_add_key_distinct [of "[]" "map Str ks"] assms(3)
    by (simp add: distinct_map inj_on_def)
  finally have keys: "map fst mapping = map Str ks" .
  then have "distinct (map fst mapping)"
    using assms(3) by (simp add: distinct_map inj_on_def)
  then have "od_update [] mapping = mapping"
    using od_update_distinct [of "[]" mapping] by simp
  with v keys show ?thesis by simp
qed


lemma represent_items_keys:
  "represent_items xs = Inr kvs \<Longrightarrow> list_all (\<lambda>(k, v). is_Str k) xs
     \<Longrightarrow> map fst kvs = map (\<lambda>(k, v). ScalarNode str_tag (str_of k)) xs"
proof (induction xs arbitrary: kvs)
  case Nil
  then show ?case by simp
next
  case (Cons kv xs)
  obtain k v where kv: "kv = (k, v)" by (cases kv)
  with Cons.prems(2) obtain s where k: "k = Str s" by (cases k) auto
  from Cons.prems(1) kv k obtain vn kvs' where
    r: "represent_items xs = Inr kvs'" and kvs: "kvs = (ScalarNode str_tag s, vn) # kvs'"
    by (auto split: sum.splits)
  from Cons.IH [OF r] Cons.prems(2) kvs kv k show ?case by simp
qed

lemma represent_dict_keys:
  assumes "map fst items = map Str ks"
    and "represent_data (OrderedDict items) = Inr nd"
  shows "\<exists>kvs. nd = MappingNode map_tag kvs \<and> map fst kvs = map (ScalarNode str_tag) (sort ks)"
proof -
  define f where "f = (\<lambda>(k :: pyvalue, v :: pyvalue). str_of k)"
  have strs: "list_all (\<lambda>(k, v). is_Str k) items"
    using assms(1) by (induction items arbitrary: ks) auto
  have fk: "map f items = ks"
    using assms(1) by (induction items arbitrary: ks) (auto simp: f_def)
  from assms(2) strs obtain kvs where
    r: "represent_items (sort_key f items) = Inr kvs" and nd: "nd = MappingNode map_tag kvs"
    by (auto simp: f_def split: sum.splits)
  have "list_all (\<lambda>(k, v). is_Str k) (sort_key f items)"
    using strs by (simp add: list_all_iff)
  from represent_items_keys [OF r this]
  have "map fst kvs = map (\<lambda>(k, v). ScalarNode str_tag (str_of k)) (sort_key f items)" .
  also have "\<dots> = map (ScalarNode str_tag) (map f (sort_key f items))"
    by (simp add: f_def case_prod_unfold)
  also have "\<dots> = map (ScalarNode str_tag) (sort ks)"
    by (simp only: map_sort_key fk)
  finally show ?thesis using nd by simp
qed

lemma reload_keys:
  assumes "map fst items = map Str ks" and "distinct ks"
    and "dump w (OrderedDict items) = Inr out"
    and "\<forall>nd. represent_data (OrderedDict items) = Inr nd
           \<longrightarrow> yaml_parse w (yaml_emit w nd) = Inr (Some (embed nd))"
    and "load w n nm out sp esc a = Some (Inr (v', b'))"
  shows "\<exists>items'. v' = OrderedDict items' \<and> map fst items' = map Str (sort ks)"
proof -
  from assms(3) obtain nd where
    rd: "represent_data (OrderedDict items) = Inr nd" and out: "out = yaml_emit w nd"
    by (auto simp: dump_def split: sum.splits)
  from represent_dict_keys [OF assms(1) rd] obtain kvs where
    nd: "nd = MappingNode map_tag kvs"
    and ks: "map fst kvs = map (ScalarNode str_tag) (sort ks)"
    by blast
  from assms(4) rd out have p: "yaml_parse w out = Inr (Some (embed nd))" by simp
  have c: "compose_document Map.empty (embed nd) = Inr (nd, Map.empty)"
    by (simp add: compose_document_def compose_embed)
  from assms(5) have
    "construct_object w n (LocalLoader_init w sp esc nm) nd Map.empty = Some (Inr (v', b'))"
    by (simp add: load_fresh p c)
  then have
    "construct_object w n (LocalLoader_init w sp esc nm) (MappingNode map_tag kvs) Map.empty
       = Some (Inr (v', b'))"
    by (simp only: nd)
  from parsed_keys [OF this ks] assms(2) show ?thesis by simp
qed

text \<open>
  C5, as the code has it. A mapping node whose keys are the distinct strings \<open>ks\<close>, in
  this order, is constructed as an \<open>OrderedDict\<close> whose keys are \<open>ks\<close> in the same
  order. Dumping that value writes the items sorted by key, so a dump that the parser
  reads back, loaded again, has the keys in sorted order: the order \<open>ks\<close> itself exactly
  when \<open>ks\<close> was sorted.
\<close>

theorem key_order_parse_and_dump:
  assumes "construct_object w n l (MappingNode map_tag kvs) a = Some (Inr (v, b))"
    and "map fst kvs = map (ScalarNode str_tag) ks"
    and "distinct ks"
  shows "\<exists>items. v = OrderedDict items \<and> map fst items = map Str ks
      \<and> (\<forall>w' out n' nm sp esc a' v' b'.
           dump w' v = Inr out
           \<and> (\<forall>nd. represent_data v = Inr nd
                  \<longrightarrow> yaml_parse w' (yaml_emit w' nd) = Inr (Some (embed nd)))
           \<and> load w' n' nm out sp esc a' = Some (Inr (v', b'))
           \<longrightarrow> (\<exists>items'. v' = OrderedDict items' \<and> map fst items' = map Str (sort ks)))"
proof -
  from parsed_keys [OF assms] obtain items where
    v: "v = OrderedDict items" and k: "map fst items = map Str ks"
    by blast
  have "\<exists>items'. v' = OrderedDict items' \<and> map fst items' = map Str (sort ks)"
    if "dump w' v = Inr out
           \<and> (\<forall>nd. represent_data v = Inr nd
                  \<longrightarrow> yaml_parse w' (yaml_emit w' nd) = Inr (Some (embed nd)))
           \<and> load w' n' nm out sp esc a' = Some (Inr (v', b'))"
    for w' out n' nm sp esc a' v' b'
    using that reload_keys [OF k assms(3), of w' out n' nm sp esc a' v' b'] v by blast
  with v k show ?thesis by blast
qed


text \<open>A concrete run in the small world.\<close>

definition int_tag :: string where
  "int_tag = ''tag:yaml.org,2002:int''"

definition demo_ba_node :: node where
  "demo_ba_node = MappingNode map_tag
     [(ScalarNode str_tag ''b'', ScalarNode int_tag ''1''),
      (ScalarNode str_tag ''a'', ScalarNode int_tag ''2'')]"

definition demo_ba :: pyvalue where
  "demo_ba = OrderedDict [(Str ''b'', PyScalar int_tag ''1''), (Str ''a'', PyScalar int_tag ''2'')]"

definition demo_ab :: pyvalue where
  "demo_ab = OrderedDict [(Str ''a'', PyScalar int_tag ''2''), (Str ''b'', PyScalar int_tag ''1'')]"

lemma demo_construct_ba:
  "construct_object demo_world (Suc (Suc 0)) demo_loader demo_ba_node Map.empty =
     Some (Inr (demo_ba, Map.empty))"
  by (simp add: demo_ba_node_def demo_ba_def construct_yaml_map_def run_defs
      map_tag_def str_tag_def int_tag_def merge_tag_def value_tag_def)

lemma demo_sort_ba: "sort [''b'', ''a''] = [''a'', ''b'']"
  by simp

lemma demo_represent_ba: "represent_data demo_ba = Inr demo_sorted_node"
  by (simp add: demo_ba_def demo_sorted_node_def map_tag_def str_tag_def int_tag_def)

lemma demo_dump_ba: "dump demo_world demo_ba = Inr ''{a: 2, b: 1}''"
  by (simp add: dump_def demo_represent_ba demo_world_def demo_emit_def)

lemma demo_roundtrip:
  "yaml_parse demo_world (yaml_emit demo_world demo_sorted_node) = Inr (Some (embed demo_sorted_node))"
  by (simp add: demo_world_def demo_emit_def demo_parse_def demo_sorted_node_def demo_main_def)

lemma demo_reload_ba:
  "load demo_world (Suc (Suc 0)) None ''{a: 2, b: 1}'' None None a = Some (Inr (demo_ab, Map.empty))"
proof -
  have p: "yaml_parse demo_world ''{a: 2, b: 1}'' = Inr (Some (embed demo_sorted_node))"
    using demo_roundtrip by (simp add: demo_world_def demo_emit_def)
  have c: "compose_document Map.empty (embed demo_sorted_node) = Inr (demo_sorted_node, Map.empty)"
    by (simp add: compose_document_def compose_embed)
  have "construct_object demo_world (Suc (Suc 0)) (LocalLoader_init demo_world None None None)
          demo_sorted_node Map.empty = Some (Inr (demo_ab, Map.empty))"
    by (simp add: demo_sorted_node_def demo_ab_def construct_yaml_map_def run_defs
      map_tag_def str_tag_def int_tag_def merge_tag_def value_tag_def)
  then show ?thesis
    by (simp add: load_fresh p c)
qed

theorem key_order_parse_and_dump_witness:
  "(\<exists>items. demo_ba = OrderedDict items \<and> map fst items = map Str [''b'', ''a''])
   \<and> (\<exists>items'. demo_ab = OrderedDict items' \<and> map fst items' = map Str [''a'', ''b''])"
proof -
  have k: "map fst [(ScalarNode str_tag ''b'', ScalarNode int_tag ''1''),
                    (ScalarNode str_tag ''a'', ScalarNode int_tag ''2'')]
      = map (ScalarNode str_tag) [''b'', ''a'']"
    by simp
  have d: "distinct [''b'', ''a'']" by simp
  from key_order_parse_and_dump [OF demo_construct_ba [unfolded demo_ba_node_def] k d]
  obtain items where
    i: "demo_ba = OrderedDict items" "map fst items = map Str [''b'', ''a'']"
    and r: "\<forall>w' out n' nm sp esc a' v' b'.
           dump w' demo_ba = Inr out
           \<and> (\<forall>nd. represent_data demo_ba = Inr nd
                  \<longrightarrow> yaml_parse w' (yaml_emit w' nd) = Inr (Some (embed nd)))
           \<and> load w' n' nm out sp esc a' = Some (Inr (v', b'))
           \<longrightarrow> (\<exists>items'. v' = OrderedDict items'
                 \<and> map fst items' = map Str (sort [''b'', ''a'']))"
    by (elim exE conjE) (rule that)
  have rt: "\<forall>nd. represent_data demo_ba = Inr nd
              \<longrightarrow> yaml_parse demo_world (yaml_emit demo_world nd) = Inr (Some (embed nd))"
    using demo_roundtrip by (simp add: demo_represent_ba)
  from r demo_dump_ba rt demo_reload_ba [of Map.empty]
  have "\<exists>items'. demo_ab = OrderedDict items'
          \<and> map fst items' = map Str (sort [''b'', ''a''])"
    by blast
  with i show ?thesis by (simp only: demo_sort_ba) blast
qed

text \<open>
  The claim as the specification states it fails for the mapping \<open>{b: 1, a: 2}\<close>: it is
  parsed with the keys \<open>b, a\<close>, dumped as \<open>{a: 2, b: 1}\<close> and reloaded with the keys
  \<open>a, b\<close>.
\<close>

theorem key_order_lost_by_dump:
  "construct_object demo_world (Suc (Suc 0)) demo_loader
       (MappingNode map_tag
          [(ScalarNode str_tag ''b'', ScalarNode int_tag ''1''),
           (ScalarNode str_tag ''a'', ScalarNode int_tag ''2'')]) Map.empty =
     Some (Inr (OrderedDict [(Str ''b'', PyScalar int_tag ''1''),
                             (Str ''a'', PyScalar int_tag ''2'')], Map.empty))
   \<and> dump demo_world (OrderedDict [(Str ''b'', PyScalar int_tag ''1''),
                                  (Str ''a'', PyScalar int_tag ''2'')]) = Inr ''{a: 2, b: 1}''
   \<and> load demo_world (Suc (Suc 0)) None ''{a: 2, b: 1}'' None None Map.empty =
     Some (Inr (OrderedDict [(Str ''a'', PyScalar int_tag ''2''),
                             (Str ''b'', PyScalar int_tag ''1'')], Map.empty))"
  using demo_construct_ba demo_dump_ba demo_reload_ba [of Map.empty]
  by (simp add: demo_ba_node_def demo_ba_def demo_ab_def)

section \<open>The registry\<close>

text \<open>
  A generator takes the output tree and the data of the component and returns the tree
  it has changed, or raises. The type of the tree is a parameter.
\<close>

type_synonym 'x generator = "'x \<Rightarrow> pyvalue \<Rightarrow> error + 'x"

text \<open>
  What the registry finds outside: for a component list type, the entry points in the
  order it collects them (the functions of the module whose documentation starts with
  \<open>yaml:\<close>, then the explicitly declared ones), each with its name and the function it
  loads; and the truth value of a scalar that is not a string.
\<close>

record 'x plugins =
  module_eps :: "string \<Rightarrow> (string \<times> 'x generator) list"
  scalar_truth :: "string \<Rightarrow> string \<Rightarrow> bool"

text \<open>
  The state of a \<open>ModuleRegistry\<close>: for a component type the component list type of
  its module, the cache of entry points by component list type (a class attribute), the
  macros of the parser by component type and name, the names warned about, and the
  setting \<open>allow_empty_variables\<close>.
\<close>

record 'x registry =
  modules_by_component_type :: "string \<Rightarrow> string option"
  entry_points_cache :: "string \<Rightarrow> (string \<Rightarrow> 'x generator option) option"
  parser_data :: "string \<Rightarrow> (string \<Rightarrow> pyvalue option) option"
  masked_warned :: "string set"
  allow_empty_variables :: bool

definition sq :: "string \<Rightarrow> string" where
  "sq s = [CHR 0x27] @ s @ [CHR 0x27]"

text \<open>Truth of a value, subscription by a string, and iteration, as Python has them.\<close>

fun truthy :: "'x plugins \<Rightarrow> pyvalue \<Rightarrow> bool" where
  "truthy env PyNone = False"
| "truthy env (Str s) = (s \<noteq> [])"
| "truthy env (PyScalar t v) = scalar_truth env t v"
| "truthy env (PyList vs) = (vs \<noteq> [])"
| "truthy env (OrderedDict items) = (items \<noteq> [])"
| "truthy env (LazyLoader c l nd) = True"
| "truthy env (LazyLoaderCollection vs) = True"

fun getitem :: "pyvalue \<Rightarrow> string \<Rightarrow> error + pyvalue" where
  "getitem (OrderedDict items) k =
     (case map_of items (Str k) of None \<Rightarrow> Inl (KeyError k) | Some v \<Rightarrow> Inr v)"
| "getitem _ k = Inl TypeError"

fun iterate :: "pyvalue \<Rightarrow> error + pyvalue list" where
  "iterate (PyList vs) = Inr vs"
| "iterate (OrderedDict items) = Inr (map fst items)"
| "iterate (Str s) = Inr (map (\<lambda>c. Str [c]) s)"
| "iterate _ = Inl TypeError"

text \<open>
  Modelled from the spec: \<open>deep_format\<close> of \<open>jenkins_jobs.formatter\<close>, which
  \<open>dispatch\<close> imports and which is not among the sources. The specification (4.4, step
  2): every string value inside the argument mapping is interpolated against the
  template arguments, other values pass through unchanged, and a missing placeholder is
  a substitution error unless the session tolerates empty substitutions. The template
  arguments are a mapping from names to strings here.
\<close>

fun as_kwargs :: "pyvalue \<Rightarrow> error + (string \<times> string) list" where
  "as_kwargs (OrderedDict []) = Inr []"
| "as_kwargs (OrderedDict ((k, v) # rest)) =
     (case (k, v) of
        (Str ks, Str vs) \<Rightarrow>
          (case as_kwargs (OrderedDict rest) of
             Inl e \<Rightarrow> Inl e
           | Inr kw \<Rightarrow> Inr ((ks, vs) # kw))
      | _ \<Rightarrow> Inl Unsupported)"
| "as_kwargs _ = Inl TypeError"

definition format_str :: "string \<Rightarrow> (string \<times> string) list \<Rightarrow> bool \<Rightarrow> error + string" where
  "format_str s kwargs allow_empty =
     (case fmt_scan [] kwargs (if allow_empty then Some [] else None) ANS_INIT 0 s of
        Inl e \<Rightarrow> (case e of KeyError k \<Rightarrow> Inl (SubstitutionError k) | _ \<Rightarrow> Inl e)
      | Inr r \<Rightarrow> Inr r)"

fun deep_format_kw :: "pyvalue \<Rightarrow> (string \<times> string) list \<Rightarrow> bool \<Rightarrow> error + pyvalue"
  and deep_format_list :: "pyvalue list \<Rightarrow> (string \<times> string) list \<Rightarrow> bool \<Rightarrow> error + pyvalue list"
  and deep_format_items ::
    "(pyvalue \<times> pyvalue) list \<Rightarrow> (string \<times> string) list \<Rightarrow> bool
       \<Rightarrow> error + (pyvalue \<times> pyvalue) list" where
  "deep_format_kw (Str s) kw ae =
     (case format_str s kw ae of Inl e \<Rightarrow> Inl e | Inr r \<Rightarrow> Inr (Str r))"
| "deep_format_kw (PyList vs) kw ae =
     (case deep_format_list vs kw ae of Inl e \<Rightarrow> Inl e | Inr rs \<Rightarrow> Inr (PyList rs))"
| "deep_format_kw (OrderedDict items) kw ae =
     (case deep_format_items items kw ae of Inl e \<Rightarrow> Inl e | Inr rs \<Rightarrow> Inr (OrderedDict rs))"
| "deep_format_kw PyNone kw ae = Inr PyNone"
| "deep_format_kw (PyScalar t v) kw ae = Inr (PyScalar t v)"
| "deep_format_kw (LazyLoader c l nd) kw ae = Inr (LazyLoader c l nd)"
| "deep_format_kw (LazyLoaderCollection vs) kw ae = Inr (LazyLoaderCollection vs)"
| "deep_format_list [] kw ae = Inr []"
| "deep_format_list (v # vs) kw ae =
     (case deep_format_kw v kw ae of
        Inl e \<Rightarrow> Inl e
      | Inr r \<Rightarrow>
          (case deep_format_list vs kw ae of Inl e \<Rightarrow> Inl e | Inr rs \<Rightarrow> Inr (r # rs)))"
| "deep_format_items [] kw ae = Inr []"
| "deep_format_items ((k, v) # rest) kw ae =
     (case deep_format_kw v kw ae of
        Inl e \<Rightarrow> Inl e
      | Inr r \<Rightarrow>
          (case deep_format_items rest kw ae of
             Inl e \<Rightarrow> Inl e
           | Inr rs \<Rightarrow> Inr ((k, r) # rs)))"

definition deep_format :: "pyvalue \<Rightarrow> pyvalue \<Rightarrow> bool \<Rightarrow> error + pyvalue" where
  "deep_format obj paramdict allow_empty =
     (case as_kwargs paramdict of
        Inl e \<Rightarrow> Inl e
      | Inr kw \<Rightarrow> deep_format_kw obj kw allow_empty)"


text \<open>
  The first step of \<open>dispatch\<close>: a dictionary gives its first item as name and data
  (\<open>next(iter(component.items()))\<close>, \<open>StopIteration\<close> on an empty one), and the data
  is interpolated when the template data is true; anything else is the name itself,
  with empty data. The model has the names that are strings.
\<close>

definition normalize ::
  "'x plugins \<Rightarrow> pyvalue \<Rightarrow> pyvalue \<Rightarrow> bool \<Rightarrow> error + (string \<times> pyvalue)" where
  "normalize env component template_data allow_empty =
     (case component of
        OrderedDict items \<Rightarrow>
          (case items of
             [] \<Rightarrow> Inl StopIteration
           | (name, component_data) # _ \<Rightarrow>
               (case (if truthy env template_data
                      then deep_format component_data template_data allow_empty
                      else Inr component_data) of
                  Inl e \<Rightarrow> Inl e
                | Inr d \<Rightarrow> (case name of Str n \<Rightarrow> Inr (n, d) | _ \<Rightarrow> Inl Unsupported)))
      | Str n \<Rightarrow> Inr (n, OrderedDict [])
      | _ \<Rightarrow> Inl Unsupported)"

text \<open>
  The entry points of a component list type: taken from the cache, or collected,
  checked for a name that occurs twice, and stored in the cache.
\<close>

fun collect_eps ::
  "string \<Rightarrow> string \<Rightarrow> (string \<times> 'x generator) list \<Rightarrow> (string \<Rightarrow> 'x generator option)
     \<Rightarrow> error + (string \<Rightarrow> 'x generator option)" where
  "collect_eps component_type name [] eps = Inr eps"
| "collect_eps component_type name ((ep_name, f) # rest) eps =
     (if eps ep_name \<noteq> None
      then Inl (JenkinsJobsException
        (''Duplicate entry point found for component type: '' @ sq component_type @ '', ''
           @ sq component_type @ '',name: '' @ sq name))
      else collect_eps component_type name rest (eps(ep_name \<mapsto> f)))"

definition get_eps ::
  "'x plugins \<Rightarrow> 'x registry \<Rightarrow> string \<Rightarrow> string \<Rightarrow> string
     \<Rightarrow> error + ((string \<Rightarrow> 'x generator option) \<times> 'x registry)" where
  "get_eps env r component_type component_list_type name =
     (case entry_points_cache r component_list_type of
        Some eps \<Rightarrow> Inr (eps, r)
      | None \<Rightarrow>
          (case collect_eps component_type name (module_eps env component_list_type) Map.empty of
             Inl e \<Rightarrow> Inl e
           | Inr eps \<Rightarrow>
               Inr (eps, r\<lparr>entry_points_cache :=
                          (entry_points_cache r)(component_list_type \<mapsto> eps)\<rparr>)))"

definition macro_lookup :: "'x registry \<Rightarrow> string \<Rightarrow> string \<Rightarrow> pyvalue" where
  "macro_lookup r component_type name =
     (case parser_data r component_type of
        None \<Rightarrow> PyNone
      | Some table \<Rightarrow> (case table name of None \<Rightarrow> PyNone | Some c \<Rightarrow> c))"

definition unknown_component :: "string \<Rightarrow> string \<Rightarrow> error" where
  "unknown_component name component_type =
     JenkinsJobsException (''Unknown entry point or macro '' @ sq name
       @ '' for component type: '' @ sq component_type @ ''.'')"

text \<open>
  \<open>ModuleRegistry.dispatch\<close>. The output tree \<open>xml_parent\<close> is changed in place by the
  generators, so it is part of the state with the registry. A macro may invoke itself:
  the first argument bounds the depth of the calls, and \<open>None\<close> is the answer of a run
  that needs more.
\<close>

fun dispatch ::
  "'x plugins \<Rightarrow> nat \<Rightarrow> string \<Rightarrow> pyvalue \<Rightarrow> pyvalue \<Rightarrow> 'x \<times> 'x registry
     \<Rightarrow> (error + 'x \<times> 'x registry) option"
  and dispatch_all ::
  "'x plugins \<Rightarrow> nat \<Rightarrow> string \<Rightarrow> pyvalue list \<Rightarrow> pyvalue \<Rightarrow> 'x \<times> 'x registry
     \<Rightarrow> (error + 'x \<times> 'x registry) option" where
  "dispatch env 0 component_type component template_data st = None"
| "dispatch env (Suc n) component_type component template_data (xml_parent, r) =
     (case modules_by_component_type r component_type of
        None \<Rightarrow>
          Some (Inl (JenkinsJobsException
            (''Unknown component type: '' @ sq component_type @ ''.'')))
      | Some component_list_type \<Rightarrow>
          (case normalize env component template_data (allow_empty_variables r) of
             Inl e \<Rightarrow> Some (Inl e)
           | Inr (name, component_data) \<Rightarrow>
               (case get_eps env r component_type component_list_type name of
                  Inl e \<Rightarrow> Some (Inl e)
                | Inr (eps, r1) \<Rightarrow>
                    if truthy env (macro_lookup r1 component_type name) then
                      (case getitem (macro_lookup r1 component_type name) component_list_type of
                         Inl e \<Rightarrow> Some (Inl e)
                       | Inr body \<Rightarrow>
                           (case iterate body of
                              Inl e \<Rightarrow> Some (Inl e)
                            | Inr bs \<Rightarrow>
                                dispatch_all env n component_type bs component_data
                                  (xml_parent,
                                   if eps name \<noteq> None \<and> name \<notin> masked_warned r1
                                   then r1\<lparr>masked_warned := insert name (masked_warned r1)\<rparr>
                                   else r1)))
                    else
                      (case eps name of
                         Some func \<Rightarrow>
                           (case func xml_parent component_data of
                              Inl e \<Rightarrow> Some (Inl e)
                            | Inr xml' \<Rightarrow> Some (Inr (xml', r1)))
                       | None \<Rightarrow> Some (Inl (unknown_component name component_type))))))"
| "dispatch_all env n component_type [] template_data st = Some (Inr st)"
| "dispatch_all env n component_type (b # bs) template_data st =
     (case dispatch env n component_type b template_data st of
        None \<Rightarrow> None
      | Some (Inl e) \<Rightarrow> Some (Inl e)
      | Some (Inr st') \<Rightarrow> dispatch_all env n component_type bs template_data st')"

section \<open>Dispatch\<close>

lemma normalize_first_item:
  "normalize env (OrderedDict (item # rest)) td ae = normalize env (OrderedDict [item]) td ae"
  by (cases item) (simp add: normalize_def)

text \<open>
  C10. Of a component given as a mapping, \<open>dispatch\<close> takes the first item as name and
  data: a mapping with more items is dispatched as the mapping of its first item alone,
  with the same result and the same state, so the other items raise nothing and change
  nothing.
\<close>

theorem dispatch_uses_first_item:
  "dispatch env n component_type (OrderedDict (item # rest)) template_data st =
   dispatch env n component_type (OrderedDict [item]) template_data st"
proof (cases n)
  case 0
  then show ?thesis by simp
next
  case (Suc m)
  obtain xml_parent r where st: "st = (xml_parent, r)" by (cases st)
  show ?thesis
    unfolding Suc st dispatch.simps normalize_first_item [of env item rest] ..
qed

lemma get_eps_result:
  assumes "get_eps env r component_type component_list_type name = Inr (eps, r1)"
  shows "entry_points_cache r1 component_list_type = Some eps"
    and "parser_data r1 = parser_data r"
    and "modules_by_component_type r1 = modules_by_component_type r"
    and "allow_empty_variables r1 = allow_empty_variables r"
    and "masked_warned r1 = masked_warned r"
  using assms by (auto simp: get_eps_def split: option.splits sum.splits)


lemma macro_lookup_parser_data:
  "parser_data r1 = parser_data r \<Longrightarrow> macro_lookup r1 = macro_lookup r"
  by (simp add: macro_lookup_def fun_eq_iff)



lemma dispatch_generator:
  assumes "modules_by_component_type r component_type = Some component_list_type"
    and "normalize env component template_data (allow_empty_variables r) = Inr (name, component_data)"
    and "get_eps env r component_type component_list_type name = Inr (eps, r1)"
    and "\<not> truthy env (macro_lookup r component_type name)"
    and "eps name = Some func"
  shows "dispatch env (Suc n) component_type component template_data (xml_parent, r) =
           (case func xml_parent component_data of
              Inl e \<Rightarrow> Some (Inl e)
            | Inr xml' \<Rightarrow> Some (Inr (xml', r1)))"
  using assms macro_lookup_parser_data [OF get_eps_result(2) [OF assms(3)]] by simp





lemma normalize_no_template:
  "normalize env (OrderedDict [(Str name, d)]) (OrderedDict []) ae = Inr (name, d)"
  by (simp add: normalize_def)




text \<open>
  C9. Let the component type be known to the registry and let the first steps succeed
  (the name and data are taken, the data is interpolated, the entry points are
  collected). When the name has no macro of this component type (the lookup gives
  nothing, or a value that is not true) and no entry point, \<open>dispatch\<close> raises
  \<open>JenkinsJobsException\<close> with a message that quotes the name and the component type.
\<close>

theorem dispatch_unknown_component:
  assumes "modules_by_component_type r component_type = Some component_list_type"
    and "normalize env component template_data (allow_empty_variables r) = Inr (name, component_data)"
    and "get_eps env r component_type component_list_type name = Inr (eps, r1)"
    and "\<not> truthy env (macro_lookup r component_type name)"
    and "eps name = None"
  shows "dispatch env (Suc n) component_type component template_data (xml_parent, r) =
           Some (Inl (JenkinsJobsException
             (''Unknown entry point or macro '' @ sq name
                @ '' for component type: '' @ sq component_type @ ''.'')))"
  using assms macro_lookup_parser_data [OF get_eps_result(2) [OF assms(3)]]
  by (simp add: unknown_component_def)

text \<open>
  A registry for concrete runs: the component type \<open>builder\<close> with the entry point
  \<open>shell\<close>, which appends a line to the output, and the macro \<open>run\<close>.
\<close>

definition demo_shell :: "string list generator" where
  "demo_shell xml_parent data =
     (case getitem data ''value'' of
        Inl e \<Rightarrow> Inl e
      | Inr v \<Rightarrow>
          (case v of
             Str s \<Rightarrow> Inr (xml_parent @ [''shell '' @ s])
           | _ \<Rightarrow> Inl (JenkinsJobsException ''value is not a string'')))"

definition demo_plugins :: "string list plugins" where
  "demo_plugins =
     \<lparr> module_eps = (\<lambda>c. if c = ''builders'' then [(''shell'', demo_shell)] else []),
       scalar_truth = (\<lambda>t v. True) \<rparr>"

definition demo_macro :: pyvalue where
  "demo_macro = OrderedDict
     [(Str ''name'', Str ''run''),
      (Str ''builders'',
       PyList [OrderedDict [(Str ''shell'', OrderedDict [(Str ''value'', Str ''{x}'')])]])]"

definition demo_registry :: "string list registry" where
  "demo_registry =
     \<lparr> modules_by_component_type = [''builder'' \<mapsto> ''builders''],
       entry_points_cache = Map.empty,
       parser_data = [''builder'' \<mapsto> [''run'' \<mapsto> demo_macro]],
       masked_warned = {},
       allow_empty_variables = False \<rparr>"

definition demo_eps :: "string \<Rightarrow> string list generator option" where
  "demo_eps = [''shell'' \<mapsto> demo_shell]"

definition demo_registry_cached :: "string list registry" where
  "demo_registry_cached = demo_registry\<lparr>entry_points_cache := [''builders'' \<mapsto> demo_eps]\<rparr>"

lemma demo_ct: "modules_by_component_type demo_registry ''builder'' = Some ''builders''"
  by (simp add: demo_registry_def)

lemma demo_get_eps:
  "get_eps demo_plugins demo_registry ''builder'' ''builders'' name =
     Inr (demo_eps, demo_registry_cached)"
  by (simp add: get_eps_def demo_registry_def demo_plugins_def demo_eps_def
      demo_registry_cached_def)


lemma demo_macro_other:
  "name \<noteq> ''run'' \<Longrightarrow> macro_lookup demo_registry ''builder'' name = PyNone"
  by (simp add: macro_lookup_def demo_registry_def)

theorem dispatch_unknown_component_witness:
  "dispatch demo_plugins (Suc 0) ''builder'' (Str ''nope'') (OrderedDict []) ([], demo_registry) =
     Some (Inl (JenkinsJobsException
       (''Unknown entry point or macro '' @ sq ''nope''
          @ '' for component type: '' @ sq ''builder'' @ ''.'')))"
proof -
  have n: "normalize demo_plugins (Str ''nope'') (OrderedDict [])
      (allow_empty_variables demo_registry) = Inr (''nope'', OrderedDict [])"
    by (simp add: normalize_def)
  have m: "\<not> truthy demo_plugins (macro_lookup demo_registry ''builder'' ''nope'')"
    by (simp add: demo_macro_other)
  have e: "demo_eps ''nope'' = None"
    by (simp add: demo_eps_def)
  show ?thesis
    by (rule dispatch_unknown_component [OF demo_ct n demo_get_eps m e])
qed


theorem dispatch_uses_first_item_witness:
  "dispatch demo_plugins (Suc 0) ''builder''
     (OrderedDict [(Str ''shell'', OrderedDict [(Str ''value'', Str ''hi'')]),
                   (Str ''nope'', PyNone)]) (OrderedDict []) ([], demo_registry) =
   Some (Inr ([''shell hi''], demo_registry_cached))"
proof -
  have g: "demo_eps ''shell'' = Some demo_shell"
    by (simp add: demo_eps_def)
  have ng: "\<not> truthy demo_plugins (macro_lookup demo_registry ''builder'' ''shell'')"
    by (simp add: demo_macro_other)
  have "dispatch demo_plugins (Suc 0) ''builder''
     (OrderedDict [(Str ''shell'', OrderedDict [(Str ''value'', Str ''hi'')])])
     (OrderedDict []) ([], demo_registry) =
     Some (Inr ([''shell hi''], demo_registry_cached))"
    unfolding dispatch_generator [OF demo_ct normalize_no_template demo_get_eps ng g]
    by (simp add: demo_shell_def)
  with dispatch_uses_first_item [of demo_plugins "Suc 0" "''builder''"
      "(Str ''shell'', OrderedDict [(Str ''value'', Str ''hi'')])" "[(Str ''nope'', PyNone)]"
      "OrderedDict []" "([], demo_registry)"]
  show ?thesis by simp
qed

end
